theory Spec2Isabelle
  imports
    Main
    "HOL-Library.Char_ord"
    "HOL-Library.List_Lexorder"
    "HOL-Library.Multiset"
    "HOL-Library.Sublist"
    "HOL-Library.Word"
begin

unbundle bit_operations_syntax


section \<open>Go strings\<close>

text \<open>
  A Go \<open>string\<close> is a byte sequence; it is modelled as \<open>string\<close> (a list of 8-bit
  \<open>char\<close>s). \<open>sort.Strings\<close> orders by the bytewise lexicographic order, which is the
  order of \<open>HOL-Library.List_Lexorder\<close> over \<open>HOL-Library.Char_ord\<close>; since equal
  strings cannot be told apart, the sorted result is \<open>sort\<close> of the list.
\<close>

text \<open>\<open>fmt.Sprintf("%d", n)\<close>: the decimal digits, with a minus sign for a negative number.\<close>

definition digit_char :: "nat \<Rightarrow> char" where
  "digit_char d =
     (if d = 0 then CHR ''0'' else if d = 1 then CHR ''1'' else if d = 2 then CHR ''2''
      else if d = 3 then CHR ''3'' else if d = 4 then CHR ''4'' else if d = 5 then CHR ''5''
      else if d = 6 then CHR ''6'' else if d = 7 then CHR ''7'' else if d = 8 then CHR ''8''
      else CHR ''9'')"

fun digits :: "nat \<Rightarrow> string" where
  "digits n = (if n < 10 then [digit_char n] else digits (n div 10) @ [digit_char (n mod 10)])"

declare digits.simps [simp del]

definition show_int :: "int \<Rightarrow> string" where
  "show_int i = (if i < 0 then CHR ''-'' # digits (nat (- i)) else digits (nat i))"

text \<open>\<open>fmt.Sprintf("%t", b)\<close>.\<close>

definition show_bool :: "bool \<Rightarrow> string" where
  "show_bool b = (if b then ''true'' else ''false'')"

text \<open>
  \<open>strings.TrimSpace\<close> removes the leading and the trailing white space, as Unicode
  defines it (\<open>unicode.IsSpace\<close>). The string is read as UTF-8: \<open>spaces\<close> lists the
  encodings of the code points that are white space, namely \<open>\t \n \v \f \r\<close>, the
  space, U+0085, U+00A0, U+1680, U+2000 to U+200A, U+2028, U+2029, U+202F, U+205F and
  U+3000. None of them is a prefix of another, and the first byte of each longer one is
  no continuation byte, so the rune that Go decodes at the start (at the end) of a
  string is white space exactly when one of them is a prefix (a suffix) of the string;
  bytes that are no valid UTF-8 decode to U+FFFD, which is not white space.
\<close>

definition spaces :: "string list" where
  "spaces =
     [[CHR 0x09], [CHR 0x0A], [CHR 0x0B], [CHR 0x0C], [CHR 0x0D], [CHR 0x20],
      [CHR 0xC2, CHR 0x85], [CHR 0xC2, CHR 0xA0], [CHR 0xE1, CHR 0x9A, CHR 0x80],
      [CHR 0xE2, CHR 0x80, CHR 0x80], [CHR 0xE2, CHR 0x80, CHR 0x81],
      [CHR 0xE2, CHR 0x80, CHR 0x82], [CHR 0xE2, CHR 0x80, CHR 0x83],
      [CHR 0xE2, CHR 0x80, CHR 0x84], [CHR 0xE2, CHR 0x80, CHR 0x85],
      [CHR 0xE2, CHR 0x80, CHR 0x86], [CHR 0xE2, CHR 0x80, CHR 0x87],
      [CHR 0xE2, CHR 0x80, CHR 0x88], [CHR 0xE2, CHR 0x80, CHR 0x89],
      [CHR 0xE2, CHR 0x80, CHR 0x8A], [CHR 0xE2, CHR 0x80, CHR 0xA8],
      [CHR 0xE2, CHR 0x80, CHR 0xA9], [CHR 0xE2, CHR 0x80, CHR 0xAF],
      [CHR 0xE2, CHR 0x81, CHR 0x9F], [CHR 0xE3, CHR 0x80, CHR 0x80]]"

text \<open>The number of bytes of the white space at the start of a string, \<open>0\<close> if there is none.\<close>

definition leading_space :: "string \<Rightarrow> nat" where
  "leading_space s = (case filter (\<lambda>w. prefix w s) spaces of [] \<Rightarrow> 0 | w # _ \<Rightarrow> length w)"

definition trailing_space :: "string \<Rightarrow> nat" where
  "trailing_space s = (case filter (\<lambda>w. suffix w s) spaces of [] \<Rightarrow> 0 | w # _ \<Rightarrow> length w)"

function TrimLeft :: "string \<Rightarrow> string" where
  "TrimLeft s = (if leading_space s = 0 then s else TrimLeft (drop (leading_space s) s))"
  by pat_completeness auto
termination
proof (relation "measure length")
  fix s :: string
  assume n: "leading_space s \<noteq> 0"
  have "leading_space s \<le> length s"
    by (auto simp add: leading_space_def filter_eq_Cons_iff prefix_length_le split: list.splits)
  with n show "(drop (leading_space s) s, s) \<in> measure length" by simp
qed simp

function TrimRight :: "string \<Rightarrow> string" where
  "TrimRight s =
     (if trailing_space s = 0 then s else TrimRight (take (length s - trailing_space s) s))"
  by pat_completeness auto
termination
proof (relation "measure length")
  fix s :: string
  assume n: "trailing_space s \<noteq> 0"
  have "trailing_space s \<le> length s"
    by (auto simp add: trailing_space_def filter_eq_Cons_iff suffix_length_le split: list.splits)
  with n show "(take (length s - trailing_space s) s, s) \<in> measure length" by simp
qed simp

declare TrimLeft.simps [simp del] TrimRight.simps [simp del]

definition TrimSpace :: "string \<Rightarrow> string" where
  "TrimSpace s = TrimRight (TrimLeft s)"

text \<open>\<open>strings.Split(s, ",")\<close>: one field more than there are commas.\<close>

fun Split_comma :: "string \<Rightarrow> string list" where
  "Split_comma [] = [[]]"
| "Split_comma (c # cs) =
     (if c = CHR '','' then [] # Split_comma cs
      else (case Split_comma cs of [] \<Rightarrow> [[c]] | w # ws \<Rightarrow> (c # w) # ws))"

text \<open>\<open>strings.Join(xs, sep)\<close>.\<close>

fun Join :: "string list \<Rightarrow> string \<Rightarrow> string" where
  "Join [] sep = []"
| "Join [x] sep = x"
| "Join (x # y # ys) sep = x @ sep @ Join (y # ys) sep"

text \<open>\<open>strings.Contains(s, sub)\<close>: \<open>sub\<close> occurs in \<open>s\<close> as a contiguous run.\<close>

fun Contains :: "string \<Rightarrow> string \<Rightarrow> bool" where
  "Contains [] sub = (sub = [])"
| "Contains (c # cs) sub = (prefix sub (c # cs) \<or> Contains cs sub)"

section \<open>The domain model (package domain)\<close>

text \<open>
  Go's \<open>int\<close> has 64 bits; the model's \<open>int\<close> is unbounded. The program compares and
  prints these numbers and does no arithmetic on them, so no overflow is in reach.
  A \<open>nil\<close> pointer field is \<open>None\<close>; a nil slice is the empty list.
\<close>

record Database =
  ID :: int
  DBName :: string
  Host :: string
  User :: string
  Pass :: string
  Port :: "int option"

record Sync =
  Name :: string
  Sources :: "int list"
  Targets :: "int list"
  Bidirectional :: "int list"
  Herd :: string
  Tables :: string
  Onetimecopy :: int
  StrictChecking :: "bool option"
  ExitOnComplete :: "bool option"
  ExitOnCompleteTimeout :: "int option"
  ConflictStrategy :: string

record BucardoConfig =
  Databases :: "Database list"
  Syncs :: "Sync list"
  LogLevel :: string

section \<open>Validation (Service.validateConfig)\<close>

text \<open>
  One constructor for each \<open>fmt.Errorf\<close> of \<open>validateConfig\<close>, in the order of the
  source, carrying the values the message is formatted from.
\<close>

datatype verror =
    DuplicateDatabaseID int
  | MissingSyncName
  | DuplicateSyncName string
  | BidirectionalTooFew string
  | BidirectionalUndefinedDb string int
  | BidirectionalStaticStrategy string string
  | NoSource string
  | NoTarget string
  | NoHerdOrTables string
  | InvalidConflictStrategy string string

text \<open>
  The first loop: \<open>dbIDs\<close> is a Go \<open>map[int]bool\<close>, whose lookup of an absent key is
  \<open>false\<close>; it is a total function, starting as \<open>\<lambda>_. False\<close>.
\<close>

fun validate_databases :: "Database list \<Rightarrow> (int \<Rightarrow> bool) \<Rightarrow> verror list \<times> (int \<Rightarrow> bool)" where
  "validate_databases [] dbIDs = ([], dbIDs)"
| "validate_databases (db # dbs) dbIDs =
     (let errs = (if dbIDs (ID db) then [DuplicateDatabaseID (ID db)] else []);
          (rest, final) = validate_databases dbs (dbIDs(ID db := True))
      in (errs @ rest, final))"

definition validStrategies :: "string list" where
  "validStrategies = [''bucardo_source'', ''bucardo_target'', ''bucardo_skip'',
                      ''bucardo_random'', ''bucardo_latest'', ''bucardo_abort'']"

text \<open>The checks of one sync with a name, after the duplicate-name check.\<close>

definition validate_shape :: "(int \<Rightarrow> bool) \<Rightarrow> Sync \<Rightarrow> verror list" where
  "validate_shape dbIDs s =
     (if length (Bidirectional s) > 0 then
        (if length (Bidirectional s) < 2 then [BidirectionalTooFew (Name s)] else [])
        @ map (BidirectionalUndefinedDb (Name s)) (filter (\<lambda>i. \<not> dbIDs i) (Bidirectional s))
        @ (if ConflictStrategy s = ''bucardo_source'' \<or> ConflictStrategy s = ''bucardo_target''
           then [BidirectionalStaticStrategy (Name s) (ConflictStrategy s)] else [])
      else
        (if length (Sources s) = 0 then [NoSource (Name s)] else [])
        @ (if length (Targets s) = 0 then [NoTarget (Name s)] else [])
        @ (if Herd s = [] \<and> Tables s = [] then [NoHerdOrTables (Name s)] else []))"

definition validate_strategy :: "Sync \<Rightarrow> verror list" where
  "validate_strategy s =
     (if ConflictStrategy s \<noteq> [] \<and> ConflictStrategy s \<notin> set validStrategies
      then [InvalidConflictStrategy (Name s) (ConflictStrategy s)] else [])"

text \<open>
  The second loop; \<open>syncNames\<close> is a \<open>map[string]bool\<close>. A sync without a name
  contributes one error and is skipped (\<open>continue\<close>).
\<close>

fun validate_syncs :: "(int \<Rightarrow> bool) \<Rightarrow> Sync list \<Rightarrow> (string \<Rightarrow> bool) \<Rightarrow> verror list" where
  "validate_syncs dbIDs [] syncNames = []"
| "validate_syncs dbIDs (s # ss) syncNames =
     (if Name s = [] then MissingSyncName # validate_syncs dbIDs ss syncNames
      else
        (if syncNames (Name s) then [DuplicateSyncName (Name s)] else [])
        @ validate_shape dbIDs s
        @ validate_strategy s
        @ validate_syncs dbIDs ss (syncNames(Name s := True)))"

definition validateConfig :: "BucardoConfig \<Rightarrow> verror list" where
  "validateConfig config =
     (let (errs, dbIDs) = validate_databases (Databases config) (\<lambda>_. False)
      in errs @ validate_syncs dbIDs (Syncs config) (\<lambda>_. False))"

section \<open>Password resolution (getDbPassword)\<close>

text \<open>
  The process environment is a partial map from names to values; \<open>os.Getenv\<close> gives the
  empty string for a name that is not set, \<open>os.LookupEnv\<close> tells the two apart.
\<close>

type_synonym environ = "string \<rightharpoonup> string"

definition Getenv :: "environ \<Rightarrow> string \<Rightarrow> string" where
  "Getenv env k = (case env k of None \<Rightarrow> [] | Some v \<Rightarrow> v)"

definition getEnv :: "environ \<Rightarrow> string \<Rightarrow> string \<Rightarrow> string" where
  "getEnv env k fallback = (case env k of Some v \<Rightarrow> v | None \<Rightarrow> fallback)"

datatype error =
    ConfigFileNotFound
  | LoadConfigFailed
  | ValidationFailed
  | InvalidConfig "verror list"
  | SaveConfigFailed
  | SetupPgpassFailed
  | InstallBucardoFailed
  | EnvVarNotSet string int
  | DatabaseExistsFailed string
  | ModifyDatabaseFailed string
  | SyncExistsFailed string
  | DeleteForRecreationFailed string
  | UpdateSyncFailed string
  | AddSyncFailed string
  | StartBucardoFailed
  | SyncAlreadyExists string
  | SyncNotFound string
  | ListDatabasesFailed
  | ListSyncsFailed
  | PanicIndexOutOfRange

text \<open>The orchestrator's \<open>getDbPassword\<close>.\<close>

definition getDbPassword :: "environ \<Rightarrow> Database \<Rightarrow> error + string" where
  "getDbPassword env db =
     (if Pass db = ''env'' then
        (let envVar = ''BUCARDO_DB'' @ show_int (ID db);
             password = Getenv env envVar
         in if password = [] then Inl (EnvVarNotSet envVar (ID db)) else Inr password)
      else Inr (Pass db))"

text \<open>\<open>PgpassManager.getDbPassword\<close>, the same function in package postgres.\<close>

definition PgpassManager_getDbPassword :: "environ \<Rightarrow> Database \<Rightarrow> error + string" where
  "PgpassManager_getDbPassword env db =
     (if Pass db = ''env'' then
        (let envVar = ''BUCARDO_DB'' @ show_int (ID db);
             password = Getenv env envVar
         in if password = [] then Inl (EnvVarNotSet envVar (ID db)) else Inr password)
      else Inr (Pass db))"

section \<open>SHA-1 (crypto/sha1) and the membership-group name\<close>

text \<open>
  \<open>sha1.Sum\<close> after FIPS 180-4: the message is padded with \<open>0x80\<close>, zeros and its bit
  length as a 64-bit big-endian number to a multiple of 64 bytes; every block of sixteen
  32-bit big-endian words is expanded to eighty words and run through eighty rounds.
  Addition of \<open>32 word\<close> wraps around.
\<close>

definition rotl :: "nat \<Rightarrow> 32 word \<Rightarrow> 32 word" where
  "rotl n w = (push_bit n w) OR (drop_bit (32 - n) w)"

definition be64 :: "64 word \<Rightarrow> 8 word list" where
  "be64 w = [ucast (drop_bit 56 w), ucast (drop_bit 48 w), ucast (drop_bit 40 w),
             ucast (drop_bit 32 w), ucast (drop_bit 24 w), ucast (drop_bit 16 w),
             ucast (drop_bit 8 w), ucast w]"

definition sha1_pad :: "string \<Rightarrow> 8 word list" where
  "sha1_pad msg =
     (let l = length msg; k = (64 - (l + 9) mod 64) mod 64
      in map of_char msg @ [0x80] @ replicate k 0 @ be64 (of_nat (8 * l)))"

fun be_words :: "8 word list \<Rightarrow> 32 word list" where
  "be_words (a # b # c # d # rest) =
     (push_bit 24 (ucast a) OR push_bit 16 (ucast b) OR push_bit 8 (ucast c) OR ucast d)
       # be_words rest"
| "be_words _ = []"

text \<open>
  The message schedule: \<open>win\<close> holds the last sixteen words, oldest first, and every step
  appends \<open>W\<^sub>t = rotl 1 (W\<^sub>t\<^sub>-\<^sub>3 XOR W\<^sub>t\<^sub>-\<^sub>8 XOR W\<^sub>t\<^sub>-\<^sub>1\<^sub>4 XOR W\<^sub>t\<^sub>-\<^sub>1\<^sub>6)\<close> to the words so far.
\<close>

definition sha1_next :: "32 word list \<Rightarrow> 32 word" where
  "sha1_next win = rotl 1 (win ! 13 XOR win ! 8 XOR win ! 2 XOR win ! 0)"

fun sha1_schedule :: "nat \<Rightarrow> 32 word list \<Rightarrow> 32 word list \<Rightarrow> 32 word list" where
  "sha1_schedule 0 acc win = acc"
| "sha1_schedule (Suc n) acc win =
     sha1_schedule n (acc @ [sha1_next win]) (tl win @ [sha1_next win])"

type_synonym sha1_state = "32 word \<times> 32 word \<times> 32 word \<times> 32 word \<times> 32 word"

definition sha1_ch :: "32 word \<Rightarrow> 32 word \<Rightarrow> 32 word \<Rightarrow> 32 word" where
  "sha1_ch b c d = (b AND c) OR ((NOT b) AND d)"

definition sha1_parity :: "32 word \<Rightarrow> 32 word \<Rightarrow> 32 word \<Rightarrow> 32 word" where
  "sha1_parity b c d = b XOR c XOR d"

definition sha1_maj :: "32 word \<Rightarrow> 32 word \<Rightarrow> 32 word \<Rightarrow> 32 word" where
  "sha1_maj b c d = (b AND c) OR (b AND d) OR (c AND d)"

fun sha1_rounds ::
  "(32 word \<Rightarrow> 32 word \<Rightarrow> 32 word \<Rightarrow> 32 word) \<Rightarrow> 32 word \<Rightarrow> 32 word list \<Rightarrow> sha1_state \<Rightarrow> sha1_state"
where
  "sha1_rounds f k [] st = st"
| "sha1_rounds f k (w # ws) (a, b, c, d, e) =
     sha1_rounds f k ws (rotl 5 a + f b c d + e + k + w, a, rotl 30 b, c, d)"

fun sha1_add :: "sha1_state \<Rightarrow> sha1_state \<Rightarrow> sha1_state" where
  "sha1_add (h0, h1, h2, h3, h4) (a, b, c, d, e) = (h0 + a, h1 + b, h2 + c, h3 + d, h4 + e)"

text \<open>Rounds 0-19, 20-39, 40-59 and 60-79 with their functions and constants.\<close>

definition sha1_compress :: "sha1_state \<Rightarrow> 32 word list \<Rightarrow> sha1_state" where
  "sha1_compress h w =
     sha1_add h
       (sha1_rounds sha1_parity 0xCA62C1D6 (take 20 (drop 60 w))
         (sha1_rounds sha1_maj 0x8F1BBCDC (take 20 (drop 40 w))
           (sha1_rounds sha1_parity 0x6ED9EBA1 (take 20 (drop 20 w))
             (sha1_rounds sha1_ch 0x5A827999 (take 20 w) h))))"

definition sha1_block :: "sha1_state \<Rightarrow> 32 word list \<Rightarrow> sha1_state" where
  "sha1_block h blk = sha1_compress h (sha1_schedule 64 blk blk)"

fun sha1_blocks :: "nat \<Rightarrow> sha1_state \<Rightarrow> 32 word list \<Rightarrow> sha1_state" where
  "sha1_blocks 0 h ws = h"
| "sha1_blocks (Suc n) h ws = sha1_blocks n (sha1_block h (take 16 ws)) (drop 16 ws)"

definition word_bytes :: "32 word \<Rightarrow> 8 word list" where
  "word_bytes w = [ucast (drop_bit 24 w), ucast (drop_bit 16 w), ucast (drop_bit 8 w), ucast w]"

fun sha1_bytes :: "sha1_state \<Rightarrow> 8 word list" where
  "sha1_bytes (h0, h1, h2, h3, h4) =
     word_bytes h0 @ word_bytes h1 @ word_bytes h2 @ word_bytes h3 @ word_bytes h4"

definition sha1_digest :: "32 word list \<Rightarrow> 8 word list" where
  "sha1_digest ws =
     sha1_bytes (sha1_blocks (length ws div 16)
                   (0x67452301, 0xEFCDAB89, 0x98BADCFE, 0x10325476, 0xC3D2E1F0) ws)"

definition sha1_Sum :: "string \<Rightarrow> 8 word list" where
  "sha1_Sum msg = sha1_digest (be_words (sha1_pad msg))"

text \<open>\<open>fmt.Sprintf("%x", bytes)\<close>: two lower-case hexadecimal digits for every byte.\<close>

definition hex_digit :: "nat \<Rightarrow> char" where
  "hex_digit d =
     (if d < 10 then digit_char d
      else if d = 10 then CHR ''a'' else if d = 11 then CHR ''b'' else if d = 12 then CHR ''c''
      else if d = 13 then CHR ''d'' else if d = 14 then CHR ''e'' else CHR ''f'')"

definition show_hex :: "8 word list \<Rightarrow> string" where
  "show_hex bs = concat (map (\<lambda>b. [hex_digit (unat b div 16), hex_digit (unat b mod 16)]) bs)"

text \<open>
  The group name that \<open>addSyncsToBucardo\<close> computes. For a bidirectional sync it is
  \<open>bg_<name>\<close>; otherwise the members \<open>db<id>:source\<close> and \<open>db<id>:target\<close> are
  sorted, joined with commas and hashed, and the name is \<open>sg_<name>_\<close> followed by the
  first four bytes of the digest in hexadecimal.
\<close>

definition source_members :: "int list \<Rightarrow> string list" where
  "source_members ids = map (\<lambda>i. ''db'' @ show_int i @ '':source'') ids"

definition target_members :: "int list \<Rightarrow> string list" where
  "target_members ids = map (\<lambda>i. ''db'' @ show_int i @ '':target'') ids"

definition memberNames :: "int list \<Rightarrow> int list \<Rightarrow> string list" where
  "memberNames srcs tgts = source_members srcs @ target_members tgts"

definition group_content :: "int list \<Rightarrow> int list \<Rightarrow> string" where
  "group_content srcs tgts = Join (sort (memberNames srcs tgts)) '',''"

definition sg_name :: "string \<Rightarrow> int list \<Rightarrow> int list \<Rightarrow> string" where
  "sg_name name srcs tgts =
     ''sg_'' @ name @ ''_'' @ show_hex (take 4 (sha1_Sum (group_content srcs tgts)))"

definition bg_name :: "string \<Rightarrow> string" where
  "bg_name name = ''bg_'' @ name"

definition dbgroupName :: "Sync \<Rightarrow> string" where
  "dbgroupName s =
     (if length (Bidirectional s) > 0 then bg_name (Name s)
      else sg_name (Name s) (Sources s) (Targets s))"

section \<open>The ports (package ports) and the trace of calls\<close>

text \<open>
  The orchestrator reaches the engine, the credential file and the monitor only through
  the interfaces of package \<open>ports\<close>. A \<open>call\<close> is one invocation of a method of
  \<open>BucardoExecutor\<close> or \<open>CredentialManager\<close> with its arguments; the trace is the list
  of the calls made, oldest first.
\<close>

datatype call =
    CallStopBucardo
  | CallStartBucardo
  | CallSetLogLevel string
  | CallSetupPgpass "Database list"
  | CallCleanupPgpass
  | CallEnsureBucardoUserPassword string string string string string int
  | CallInstallBucardo string string string string
  | CallListDatabases
  | CallDatabaseExists string
  | CallRemoveDatabase string
  | CallListSyncs
  | CallSyncExists string
  | CallGetSyncRelgroup string
  | CallGetSyncTables string
  | CallRemoveSyncAndRelgroup string string string string string int
  | CallExecuteBucardoCommand "string list"

text \<open>
  What the other side answers is not in the program: it is a parameter. The answer to a
  call may depend on every call made before it, so each field takes the trace so far:
  \<open>fails\<close> tells whether the call returns a non-nil error, the other fields give the
  value a successful call returns.
\<close>

record ports =
  fails :: "call list \<Rightarrow> call \<Rightarrow> bool"
  ListDatabases_ret :: "call list \<Rightarrow> string list"
  DatabaseExists_ret :: "call list \<Rightarrow> string \<Rightarrow> bool"
  ListSyncs_ret :: "call list \<Rightarrow> string list"
  SyncExists_ret :: "call list \<Rightarrow> string \<Rightarrow> bool \<times> string"
  GetSyncRelgroup_ret :: "call list \<Rightarrow> string \<Rightarrow> string"
  GetSyncTables_ret :: "call list \<Rightarrow> string \<Rightarrow> string list"

text \<open>One call: whether it failed, and the trace with the call appended.\<close>

definition invoke :: "ports \<Rightarrow> call \<Rightarrow> call list \<Rightarrow> bool \<times> call list" where
  "invoke P c tr = (fails P tr c, tr @ [c])"

text \<open>The connection parameters of the engine's own database, read from the environment.\<close>

record conn =
  dbHost :: string
  dbUser :: string
  dbPass :: string
  dbPort :: int

definition RemoveSyncAndRelgroup :: "conn \<Rightarrow> string \<Rightarrow> string \<Rightarrow> call" where
  "RemoveSyncAndRelgroup c syncName relgroupName =
     CallRemoveSyncAndRelgroup syncName relgroupName (dbHost c) (dbUser c) (dbPass c) (dbPort c)"

section \<open>Orphan pruning (removeOrphanedDbs, removeOrphanedSyncs)\<close>

definition dbName_of :: "Database \<Rightarrow> string" where
  "dbName_of db = ''db'' @ show_int (ID db)"

definition configDbs :: "BucardoConfig \<Rightarrow> string \<Rightarrow> bool" where
  "configDbs config = foldl (\<lambda>m db. m(dbName_of db := True)) (\<lambda>_. False) (Databases config)"

fun remove_dbs_loop :: "ports \<Rightarrow> (string \<Rightarrow> bool) \<Rightarrow> string list \<Rightarrow> call list \<Rightarrow> call list" where
  "remove_dbs_loop P cfgDbs [] tr = tr"
| "remove_dbs_loop P cfgDbs (n # ns) tr =
     remove_dbs_loop P cfgDbs ns
       (if \<not> cfgDbs n then snd (invoke P (CallRemoveDatabase n) tr) else tr)"

definition removeOrphanedDbs :: "ports \<Rightarrow> BucardoConfig \<Rightarrow> call list \<Rightarrow> error option \<times> call list" where
  "removeOrphanedDbs P config tr =
     (case invoke P CallListDatabases tr of
        (True, tr1) \<Rightarrow> (Some ListDatabasesFailed, tr1)
      | (False, tr1) \<Rightarrow>
          (None, remove_dbs_loop P (configDbs config) (ListDatabases_ret P tr) tr1))"

definition configSyncs :: "BucardoConfig \<Rightarrow> string \<Rightarrow> bool" where
  "configSyncs config = foldl (\<lambda>m s. m(Name s := True)) (\<lambda>_. False) (Syncs config)"

text \<open>
  One orphaned sync: \<open>SyncExists\<close>, then \<open>GetSyncRelgroup\<close> on its output (the sync's
  own name when that fails), then \<open>RemoveSyncAndRelgroup\<close>, whose error is only logged.
\<close>

definition remove_orphan_sync :: "ports \<Rightarrow> conn \<Rightarrow> string \<Rightarrow> call list \<Rightarrow> call list" where
  "remove_orphan_sync P c n tr =
     (case invoke P (CallSyncExists n) tr of
        (err, tr1) \<Rightarrow>
          if err \<or> \<not> fst (SyncExists_ret P tr n) then tr1
          else
            (case invoke P (CallGetSyncRelgroup (snd (SyncExists_ret P tr n))) tr1 of
               (gerr, tr2) \<Rightarrow>
                 snd (invoke P
                   (RemoveSyncAndRelgroup c n
                      (if gerr then n
                       else GetSyncRelgroup_ret P tr1 (snd (SyncExists_ret P tr n))))
                   tr2)))"

fun remove_syncs_loop ::
  "ports \<Rightarrow> conn \<Rightarrow> (string \<Rightarrow> bool) \<Rightarrow> string list \<Rightarrow> call list \<Rightarrow> call list" where
  "remove_syncs_loop P c cfgSyncs [] tr = tr"
| "remove_syncs_loop P c cfgSyncs (n # ns) tr =
     remove_syncs_loop P c cfgSyncs ns
       (if \<not> cfgSyncs n then remove_orphan_sync P c n tr else tr)"

definition removeOrphanedSyncs ::
  "ports \<Rightarrow> BucardoConfig \<Rightarrow> conn \<Rightarrow> call list \<Rightarrow> error option \<times> call list" where
  "removeOrphanedSyncs P config c tr =
     (case invoke P CallListSyncs tr of
        (True, tr1) \<Rightarrow> (Some ListSyncsFailed, tr1)
      | (False, tr1) \<Rightarrow>
          (None, remove_syncs_loop P c (configSyncs config) (ListSyncs_ret P tr) tr1))"

section \<open>Database reconciliation (addDatabasesToBucardo)\<close>

definition db_args :: "bool \<Rightarrow> Database \<Rightarrow> string \<Rightarrow> string list" where
  "db_args ex db password =
     [if ex then ''update'' else ''add'', ''db'', dbName_of db,
      ''dbname='' @ DBName db, ''host='' @ Host db, ''user='' @ User db, ''pass='' @ password]
     @ (case Port db of None \<Rightarrow> [] | Some p \<Rightarrow> [''port='' @ show_int p])"

fun add_dbs_loop ::
  "ports \<Rightarrow> environ \<Rightarrow> Database list \<Rightarrow> call list \<Rightarrow> error option \<times> call list" where
  "add_dbs_loop P env [] tr = (None, tr)"
| "add_dbs_loop P env (db # dbs) tr =
     (case invoke P (CallDatabaseExists (dbName_of db)) tr of
        (True, tr1) \<Rightarrow> (Some (DatabaseExistsFailed (dbName_of db)), tr1)
      | (False, tr1) \<Rightarrow>
          (case getDbPassword env db of
             Inl e \<Rightarrow> (Some e, tr1)
           | Inr password \<Rightarrow>
               (case invoke P
                       (CallExecuteBucardoCommand
                          (db_args (DatabaseExists_ret P tr (dbName_of db)) db password))
                       tr1 of
                  (True, tr2) \<Rightarrow> (Some (ModifyDatabaseFailed (dbName_of db)), tr2)
                | (False, tr2) \<Rightarrow> add_dbs_loop P env dbs tr2)))"

definition addDatabasesToBucardo ::
  "ports \<Rightarrow> environ \<Rightarrow> BucardoConfig \<Rightarrow> call list \<Rightarrow> error option \<times> call list" where
  "addDatabasesToBucardo P env config tr = add_dbs_loop P env (Databases config) tr"

section \<open>Sync reconciliation (addSyncsToBucardo)\<close>

text \<open>The desired table list: split at commas, every entry trimmed, then sorted.\<close>

definition configTables :: "Sync \<Rightarrow> string list" where
  "configTables s = sort (map TrimSpace (Split_comma (Tables s)))"

text \<open>
  The test that decides on a destructive re-creation: the comma-joined list that
  \<open>GetSyncTables\<close> returned against the comma-joined desired list.
\<close>

definition tables_changed :: "string list \<Rightarrow> Sync \<Rightarrow> bool" where
  "tables_changed currentTables s = (Join currentTables '','' \<noteq> Join (configTables s) '','')"

definition strict_arg :: "Sync \<Rightarrow> string list" where
  "strict_arg s =
     (case StrictChecking s of None \<Rightarrow> [] | Some b \<Rightarrow> [''strict_checking='' @ show_bool b])"

definition conflict_arg :: "Sync \<Rightarrow> string list" where
  "conflict_arg s =
     (if ConflictStrategy s \<noteq> [] then [''conflict_strategy='' @ ConflictStrategy s] else [])"

definition update_args :: "Sync \<Rightarrow> string list" where
  "update_args s = [''update'', ''sync'', Name s] @ strict_arg s @ conflict_arg s"

definition update_sync :: "ports \<Rightarrow> Sync \<Rightarrow> call list \<Rightarrow> error option \<times> call list" where
  "update_sync P s tr =
     (case invoke P (CallExecuteBucardoCommand (update_args s)) tr of
        (True, tr1) \<Rightarrow> (Some (UpdateSyncFailed (Name s)), tr1)
      | (False, tr1) \<Rightarrow> (None, tr1))"

definition dbgroupMembers :: "Sync \<Rightarrow> string list" where
  "dbgroupMembers s =
     (if length (Bidirectional s) > 0 then source_members (Bidirectional s)
      else memberNames (Sources s) (Targets s))"

definition add_args :: "Sync \<Rightarrow> string list \<Rightarrow> string list" where
  "add_args s selection =
     [''add'', ''sync'', Name s, ''onetimecopy='' @ show_int (Onetimecopy s),
      ''dbs='' @ dbgroupName s]
     @ selection
     @ (if ExitOnComplete s = Some True then [''stayalive=0'', ''kidsalive=0''] else [])
     @ strict_arg s @ conflict_arg s"

definition add_sync :: "ports \<Rightarrow> Sync \<Rightarrow> string list \<Rightarrow> call list \<Rightarrow> error option \<times> call list" where
  "add_sync P s selection tr =
     (case invoke P (CallExecuteBucardoCommand (add_args s selection)) tr of
        (True, tr1) \<Rightarrow> (Some (AddSyncFailed (Name s)), tr1)
      | (False, tr1) \<Rightarrow> (None, tr1))"

text \<open>The commands whose result the source ignores.\<close>

definition run_ignored :: "ports \<Rightarrow> string list \<Rightarrow> call list \<Rightarrow> call list" where
  "run_ignored P args tr = snd (invoke P (CallExecuteBucardoCommand args) tr)"

text \<open>
  The creation path. The group is deleted and added again; with a herd, \<open>sync.Sources[0]\<close>
  is read, which panics when the sync has no source.
\<close>

definition create_sync :: "ports \<Rightarrow> Sync \<Rightarrow> call list \<Rightarrow> error option \<times> call list" where
  "create_sync P s tr =
     (let tr1 = run_ignored P [''del'', ''dbgroup'', dbgroupName s] tr;
          tr2 = run_ignored P ([''add'', ''dbgroup'', dbgroupName s] @ dbgroupMembers s) tr1
      in if Herd s \<noteq> [] then
           (case Sources s of
              [] \<Rightarrow> (Some PanicIndexOutOfRange, tr2)
            | src # _ \<Rightarrow>
                (let tr3 = run_ignored P [''del'', ''herd'', Herd s, ''--force''] tr2;
                     tr4 = run_ignored P [''add'', ''herd'', Herd s] tr3;
                     tr5 = run_ignored P [''add'', ''all'', ''tables'', ''--herd='' @ Herd s,
                                          ''db=db'' @ show_int src] tr4
                 in add_sync P s [''herd='' @ Herd s] tr5))
         else add_sync P s (if Tables s \<noteq> [] then [''tables='' @ Tables s] else []) tr2)"

text \<open>
  An existing sync with an explicit table list: the relgroup name (the sync's name when
  it cannot be parsed), the engine's tables (none when \<open>GetSyncTables\<close> fails, as
  \<open>CLIExecutor.GetSyncTables\<close> returns \<open>nil\<close> with its error), and the comparison.
\<close>

definition reconcile_tables ::
  "ports \<Rightarrow> conn \<Rightarrow> Sync \<Rightarrow> string \<Rightarrow> call list \<Rightarrow> error option \<times> call list" where
  "reconcile_tables P c s details tr1 =
     (case invoke P (CallGetSyncRelgroup details) tr1 of
        (gerr, tr2) \<Rightarrow>
          (let relgroupName = (if gerr then Name s else GetSyncRelgroup_ret P tr1 details)
           in case invoke P (CallGetSyncTables relgroupName) tr2 of
                (terr, tr3) \<Rightarrow>
                  if tables_changed (if terr then [] else GetSyncTables_ret P tr2 relgroupName) s
                  then
                    (case invoke P (RemoveSyncAndRelgroup c (Name s) relgroupName) tr3 of
                       (True, tr4) \<Rightarrow> (Some (DeleteForRecreationFailed (Name s)), tr4)
                     | (False, tr4) \<Rightarrow> create_sync P s tr4)
                  else update_sync P s tr3))"

definition reconcile_sync ::
  "ports \<Rightarrow> conn \<Rightarrow> Sync \<Rightarrow> call list \<Rightarrow> error option \<times> call list" where
  "reconcile_sync P c s tr =
     (case invoke P (CallSyncExists (Name s)) tr of
        (True, tr1) \<Rightarrow> (Some (SyncExistsFailed (Name s)), tr1)
      | (False, tr1) \<Rightarrow>
          if fst (SyncExists_ret P tr (Name s)) then
            (if Tables s \<noteq> [] then
               reconcile_tables P c s (snd (SyncExists_ret P tr (Name s))) tr1
             else update_sync P s tr1)
          else create_sync P s tr1)"

fun add_syncs_loop ::
  "ports \<Rightarrow> conn \<Rightarrow> Sync list \<Rightarrow> call list \<Rightarrow> error option \<times> call list" where
  "add_syncs_loop P c [] tr = (None, tr)"
| "add_syncs_loop P c (s # ss) tr =
     (case reconcile_sync P c s tr of
        (Some e, tr1) \<Rightarrow> (Some e, tr1)
      | (None, tr1) \<Rightarrow> add_syncs_loop P c ss tr1)"

definition addSyncsToBucardo ::
  "ports \<Rightarrow> BucardoConfig \<Rightarrow> conn \<Rightarrow> call list \<Rightarrow> error option \<times> call list" where
  "addSyncsToBucardo P config c tr = add_syncs_loop P c (Syncs config) tr"

section \<open>Service.ReloadAndRestart\<close>

text \<open>
  What the process finds on its host: the environment, whether the configuration file
  exists (\<open>os.Stat\<close>), what \<open>LoadConfig\<close> returns (\<open>None\<close> for an error), and the number
  that \<open>fmt.Sscanf(_, "%d", _)\<close> leaves in \<open>dbPort\<close> for a string.
\<close>

record host =
  environment :: environ
  configFileExists :: bool
  stored :: "BucardoConfig option"
  scanPort :: "string \<Rightarrow> int"

definition connection :: "host \<Rightarrow> conn" where
  "connection H =
     \<lparr> dbHost = getEnv (environment H) ''BUCARDO_DB_HOST'' ''postgres'',
       dbUser = getEnv (environment H) ''BUCARDO_DB_USER'' ''postgres'',
       dbPass = getEnv (environment H) ''BUCARDO_DB_PASS'' ''changeme'',
       dbPort = scanPort H (getEnv (environment H) ''BUCARDO_DB_PORT'' ''5432'') \<rparr>"

definition allDBsForPass :: "host \<Rightarrow> BucardoConfig \<Rightarrow> Database list" where
  "allDBsForPass H config =
     (let dbName = getEnv (environment H) ''BUCARDO_DB_NAME'' ''bucardo''; c = connection H
      in [\<lparr> ID = 0, DBName = dbName, Host = dbHost c, User = dbName, Pass = dbPass c,
            Port = Some (dbPort c) \<rparr>,
          \<lparr> ID = - 1, DBName = dbName, Host = dbHost c, User = dbUser c, Pass = dbPass c,
            Port = Some (dbPort c) \<rparr>]
         @ Databases config)"

definition setLogLevel :: "ports \<Rightarrow> BucardoConfig \<Rightarrow> call list \<Rightarrow> call list" where
  "setLogLevel P config tr =
     (if LogLevel config \<noteq> [] then snd (invoke P (CallSetLogLevel (LogLevel config)) tr) else tr)"

text \<open>
  The four reconciliation steps in the order of the source: the two prunings, whose
  errors are only logged, then the declared databases and the declared syncs.
\<close>

definition reconcile :: "ports \<Rightarrow> host \<Rightarrow> BucardoConfig \<Rightarrow> call list \<Rightarrow> error option \<times> call list" where
  "reconcile P H config tr =
     (let tr1 = snd (removeOrphanedDbs P config tr);
          tr2 = snd (removeOrphanedSyncs P config (connection H) tr1)
      in case addDatabasesToBucardo P (environment H) config tr2 of
           (Some e, tr3) \<Rightarrow> (Some e, tr3)
         | (None, tr3) \<Rightarrow> addSyncsToBucardo P config (connection H) tr3)"

text \<open>Everything after \<open>defer s.creds.CleanupPgpass(ctx)\<close>.\<close>

definition reload_body :: "ports \<Rightarrow> host \<Rightarrow> BucardoConfig \<Rightarrow> call list \<Rightarrow> error option \<times> call list" where
  "reload_body P H config tr =
     (let dbName = getEnv (environment H) ''BUCARDO_DB_NAME'' ''bucardo''; c = connection H;
          tr1 = snd (invoke P
                  (CallEnsureBucardoUserPassword (dbHost c) (dbUser c) (dbPass c) dbName
                     (dbPass c) (dbPort c)) tr)
      in case invoke P (CallInstallBucardo dbName (dbHost c) (dbUser c) (dbPass c)) tr1 of
           (True, tr2) \<Rightarrow> (Some InstallBucardoFailed, tr2)
         | (False, tr2) \<Rightarrow>
             (case reconcile P H config (setLogLevel P config tr2) of
                (Some e, tr3) \<Rightarrow> (Some e, tr3)
              | (None, tr3) \<Rightarrow>
                  (case invoke P CallStartBucardo tr3 of
                     (True, tr4) \<Rightarrow> (Some StartBucardoFailed, tr4)
                   | (False, tr4) \<Rightarrow> (None, tr4))))"

definition ReloadAndRestart :: "ports \<Rightarrow> host \<Rightarrow> call list \<Rightarrow> error option \<times> call list" where
  "ReloadAndRestart P H tr =
     (if \<not> configFileExists H then (Some ConfigFileNotFound, tr)
      else case stored H of
        None \<Rightarrow> (Some LoadConfigFailed, tr)
      | Some config \<Rightarrow>
          if length (validateConfig config) > 0 then (Some ValidationFailed, tr)
          else
            (let tr1 = snd (invoke P CallStopBucardo tr)
             in case invoke P (CallSetupPgpass (allDBsForPass H config)) tr1 of
                  (True, tr2) \<Rightarrow> (Some SetupPgpassFailed, tr2)
                | (False, tr2) \<Rightarrow>
                    (case reload_body P H config tr2 of
                       (r, tr3) \<Rightarrow> (r, snd (invoke P CallCleanupPgpass tr3)))))"

section \<open>The completion monitor (MonitorAdapter)\<close>

text \<open>
  The monitor's \<open>select\<close> waits for the next log line, the timer, or the cancellation
  of the context; \<open>MonitorBucardo\<close> waits for a signal or the cancellation. What arrives,
  and in which order, is the environment's choice: a list of events. \<open>Clock t\<close> says that
  the \<open>select\<close> turns to the timer channel when \<open>t\<close> nanoseconds have passed since the
  timer was set; the channel delivers only if the timer has fired by then. The model runs
  the loop over the events it is given; \<open>Waiting\<close> says that the monitor is blocked in
  its \<open>select\<close> when they are used up.
\<close>

datatype event = Line string | LineClosed | Clock nat | Cancelled | Signal

text \<open>
  How a monitor ends: it returns, the process exits in it, or it is still waiting. The
  monitor's state is the trace of engine calls and the lines it has republished.
\<close>

datatype outcome = Returned | Exited int | Waiting

type_synonym mstate = "call list \<times> string list"

text \<open>
  What the Go runtime and the host decide. Both monitors read the engine's log through a
  \<open>tail -F\<close> process of their own: \<open>MonitorSyncs\<close> exits with status 1 when it cannot
  be started, \<open>MonitorBucardo\<close> goes on without republishing lines. The order in which
  \<open>range\<close> visits the keys of a map is left open by the language: \<open>range_rank\<close> ranks
  the keys, for each loop anew (it is given the trace the loop starts with), and the
  keys are visited by rising rank.
\<close>

record runtime =
  tail_starts :: bool
  streamer_starts :: bool
  range_rank :: "call list \<Rightarrow> string \<Rightarrow> nat"

text \<open>
  \<open>MonitorBucardo\<close>: only a signal or the cancellation ends it, through the stop
  function. Lines are republished by the log streamer and decide nothing.
\<close>

fun MonitorBucardo :: "ports \<Rightarrow> runtime \<Rightarrow> event list \<Rightarrow> mstate \<Rightarrow> outcome \<times> mstate" where
  "MonitorBucardo P L [] st = (Waiting, st)"
| "MonitorBucardo P L (Signal # es) (tr, pub) = (Returned, snd (invoke P CallStopBucardo tr), pub)"
| "MonitorBucardo P L (Cancelled # es) (tr, pub) =
     (Returned, snd (invoke P CallStopBucardo tr), pub)"
| "MonitorBucardo P L (Line l # es) (tr, pub) =
     MonitorBucardo P L es (tr, if streamer_starts L then pub @ [l] else pub)"
| "MonitorBucardo P L (LineClosed # es) st = MonitorBucardo P L es st"
| "MonitorBucardo P L (Clock t # es) st = MonitorBucardo P L es st"

text \<open>
  The inner loop over the pending run-once syncs for one line that holds the completion
  phrase. \<open>runOnceSyncs\<close> is a Go map used as a set; it is modelled by the list of its
  keys. The loop visits the keys in the order \<open>visit\<close>. A sync whose \<open>KID (<name>)\<close>
  occurs in the line gets a \<open>stop\<close> command, whose error is only logged, and is deleted
  from the map.
\<close>

definition kid_marker :: "string \<Rightarrow> string" where
  "kid_marker syncName = ''KID ('' @ syncName @ '')''"

fun stop_matching ::
  "ports \<Rightarrow> string \<Rightarrow> string list \<Rightarrow> string list \<Rightarrow> call list \<Rightarrow> string list \<times> call list"
where
  "stop_matching P line [] runOnceSyncs tr = (runOnceSyncs, tr)"
| "stop_matching P line (syncName # visit) runOnceSyncs tr =
     (if Contains line (kid_marker syncName) then
        stop_matching P line visit (removeAll syncName runOnceSyncs)
          (snd (invoke P (CallExecuteBucardoCommand [''stop'', syncName]) tr))
      else stop_matching P line visit runOnceSyncs tr)"

definition process_line ::
  "ports \<Rightarrow> runtime \<Rightarrow> string \<Rightarrow> string list \<Rightarrow> call list \<Rightarrow> string list \<times> call list" where
  "process_line P L line pending tr =
     (if Contains line ''Reason: Normal exit''
      then stop_matching P line (sort_key (range_rank L tr) pending) pending tr
      else (pending, tr))"

text \<open>
  The \<open>for/select\<close> loop of \<open>MonitorSyncs\<close>. \<open>timeoutChannel\<close> is \<open>None\<close> for the nil
  channel, which never delivers, and otherwise holds the duration in nanoseconds that
  \<open>time.After\<close> was given: the timer has fired when that much time has passed (at once
  for a duration that is not positive). A signal is not among the cases of this
  \<open>select\<close>.
\<close>

fun watch ::
  "ports \<Rightarrow> runtime \<Rightarrow> bool \<Rightarrow> int option \<Rightarrow> string list \<Rightarrow> event list \<Rightarrow> mstate
     \<Rightarrow> outcome \<times> mstate"
where
  "watch P L allSyncsAreRunOnce timeoutChannel pending [] st = (Waiting, st)"
| "watch P L allSyncsAreRunOnce timeoutChannel pending (LineClosed # es) st = (Returned, st)"
| "watch P L allSyncsAreRunOnce timeoutChannel pending (Cancelled # es) (tr, pub) =
     (Returned, snd (invoke P CallStopBucardo tr), pub)"
| "watch P L allSyncsAreRunOnce timeoutChannel pending (Clock t # es) (tr, pub) =
     (case timeoutChannel of
        None \<Rightarrow> watch P L allSyncsAreRunOnce timeoutChannel pending es (tr, pub)
      | Some d \<Rightarrow>
          if d \<le> int t then (Exited 1, snd (invoke P CallStopBucardo tr), pub)
          else watch P L allSyncsAreRunOnce timeoutChannel pending es (tr, pub))"
| "watch P L allSyncsAreRunOnce timeoutChannel pending (Signal # es) st =
     watch P L allSyncsAreRunOnce timeoutChannel pending es st"
| "watch P L allSyncsAreRunOnce timeoutChannel pending (Line l # es) (tr, pub) =
     (case process_line P L l pending tr of
        (pending', tr') \<Rightarrow>
          if length pending' = 0 then
            (if allSyncsAreRunOnce then (Returned, snd (invoke P CallStopBucardo tr'), pub @ [l])
             else MonitorBucardo P L es (tr', pub @ [l]))
          else watch P L allSyncsAreRunOnce timeoutChannel pending' es (tr', pub @ [l]))"

text \<open>
  \<open>time.Duration(*maxTimeout) * time.Second\<close>: a \<open>time.Duration\<close> is an \<open>int64\<close> count
  of nanoseconds, and the product wraps around in 64 bits (Go's \<open>int\<close> has 64 bits on
  the platforms of the image, and the JSON decoder admits no number beyond it).
\<close>

definition timeoutDuration :: "int \<Rightarrow> int" where
  "timeoutDuration maxTimeout = sint ((word_of_int maxTimeout :: 64 word) * 1000000000)"

text \<open>The timeout channel is set up when \<open>maxTimeout\<close> is not nil and positive.\<close>

definition timeout_channel :: "int option \<Rightarrow> int option" where
  "timeout_channel maxTimeout =
     (case maxTimeout of
        None \<Rightarrow> None
      | Some t \<Rightarrow> if t > 0 then Some (timeoutDuration t) else None)"

definition MonitorSyncs ::
  "ports \<Rightarrow> runtime \<Rightarrow> BucardoConfig \<Rightarrow> string list \<Rightarrow> int option \<Rightarrow> event list \<Rightarrow> mstate
     \<Rightarrow> outcome \<times> mstate"
where
  "MonitorSyncs P L config runOnceSyncs maxTimeout events st =
     (if \<not> tail_starts L then (Exited 1, st)
      else watch P L (length (Syncs config) = length runOnceSyncs) (timeout_channel maxTimeout)
             runOnceSyncs events st)"

section \<open>Service.Run and the exit status of the process\<close>

text \<open>
  The loop of \<open>Run\<close> over the syncs: the names of the run-once syncs (the keys of the map
  \<open>runOnceSyncs\<close>) and the largest of their timeouts.
\<close>

fun run_once_scan :: "Sync list \<Rightarrow> string list \<Rightarrow> int option \<Rightarrow> string list \<times> int option" where
  "run_once_scan [] keys maxTimeout = (keys, maxTimeout)"
| "run_once_scan (s # ss) keys maxTimeout =
     (if ExitOnComplete s = Some True then
        run_once_scan ss (List.insert (Name s) keys)
          (case ExitOnCompleteTimeout s of
             None \<Rightarrow> maxTimeout
           | Some t \<Rightarrow>
               (case maxTimeout of
                  None \<Rightarrow> Some t
                | Some m \<Rightarrow> if t > m then Some t else maxTimeout))
      else run_once_scan ss keys maxTimeout)"

text \<open>
  \<open>Run\<close> returns an error or nil, or the process exits inside the monitor; \<open>main\<close> turns
  a returned error into exit status 1 and nil into a normal end, status 0. A panic is
  not returned: it ends the process with the status 2 of the Go runtime.
\<close>

datatype status = Exit int | Running

definition Run :: "ports \<Rightarrow> host \<Rightarrow> runtime \<Rightarrow> event list \<Rightarrow> status \<times> mstate" where
  "Run P H L events =
     (case ReloadAndRestart P H [] of
        (Some e, tr) \<Rightarrow> (Exit (if e = PanicIndexOutOfRange then 2 else 1), tr, [])
      | (None, tr) \<Rightarrow>
          (case stored H of
             None \<Rightarrow> (Exit 1, tr, [])
           | Some config \<Rightarrow>
               (case run_once_scan (Syncs config) [] None of
                  (runOnceSyncs, maxTimeout) \<Rightarrow>
                    (case (if length runOnceSyncs > 0
                           then MonitorSyncs P L config runOnceSyncs maxTimeout events (tr, [])
                           else MonitorBucardo P L events (tr, [])) of
                       (Returned, st) \<Rightarrow> (Exit 0, st)
                     | (Exited n, st) \<Rightarrow> (Exit n, st)
                     | (Waiting, st) \<Rightarrow> (Running, st)))))"

section \<open>The administrative sync operations (AddSync, UpdateSync, DeleteSync)\<close>

text \<open>
  The stored desired state is what \<open>LoadConfig\<close> returns: a configuration, or \<open>None\<close>
  when the file cannot be read or parsed. Whether \<open>SaveConfig\<close> fails, and what is
  stored after a failed write, is the file system's matter: parameters.
\<close>

record disk =
  write_fails :: bool
  after_failed_write :: "BucardoConfig option"

definition SaveConfig :: "disk \<Rightarrow> BucardoConfig \<Rightarrow> error option \<times> BucardoConfig option" where
  "SaveConfig D config =
     (if write_fails D then (Some SaveConfigFailed, after_failed_write D) else (None, Some config))"

definition UpdateConfig ::
  "disk \<Rightarrow> BucardoConfig \<Rightarrow> BucardoConfig option \<Rightarrow> error option \<times> BucardoConfig option" where
  "UpdateConfig D config st =
     (if length (validateConfig config) > 0 then (Some (InvalidConfig (validateConfig config)), st)
      else SaveConfig D config)"

definition AddSync ::
  "disk \<Rightarrow> Sync \<Rightarrow> BucardoConfig option \<Rightarrow> error option \<times> BucardoConfig option" where
  "AddSync D sync st =
     (case st of
        None \<Rightarrow> (Some LoadConfigFailed, st)
      | Some config \<Rightarrow>
          if \<exists>existing \<in> set (Syncs config). Name existing = Name sync
          then (Some (SyncAlreadyExists (Name sync)), st)
          else UpdateConfig D (config\<lparr>Syncs := Syncs config @ [sync]\<rparr>) st)"

text \<open>The loop of \<open>UpdateSync\<close>: the first sync of the name is replaced, then \<open>break\<close>.\<close>

fun replace_first :: "string \<Rightarrow> Sync \<Rightarrow> Sync list \<Rightarrow> Sync list \<times> bool" where
  "replace_first name updated [] = ([], False)"
| "replace_first name updated (s # ss) =
     (if Name s = name then (updated\<lparr>Name := name\<rparr> # ss, True)
      else (case replace_first name updated ss of (rest, found) \<Rightarrow> (s # rest, found)))"

definition UpdateSync ::
  "disk \<Rightarrow> string \<Rightarrow> Sync \<Rightarrow> BucardoConfig option \<Rightarrow> error option \<times> BucardoConfig option" where
  "UpdateSync D name updated st =
     (case st of
        None \<Rightarrow> (Some LoadConfigFailed, st)
      | Some config \<Rightarrow>
          (case replace_first name updated (Syncs config) of
             (syncs', found) \<Rightarrow>
               if \<not> found then (Some (SyncNotFound name), st)
               else UpdateConfig D (config\<lparr>Syncs := syncs'\<rparr>) st))"

definition DeleteSync ::
  "disk \<Rightarrow> string \<Rightarrow> BucardoConfig option \<Rightarrow> error option \<times> BucardoConfig option" where
  "DeleteSync D name st =
     (case st of
        None \<Rightarrow> (Some LoadConfigFailed, st)
      | Some config \<Rightarrow>
          if \<not> (\<exists>s \<in> set (Syncs config). Name s = name) then (Some (SyncNotFound name), st)
          else UpdateConfig D (config\<lparr>Syncs := filter (\<lambda>s. Name s \<noteq> name) (Syncs config)\<rparr>) st)"

section \<open>Password redaction (redactPassword, CLIExecutor.runBucardoCommand)\<close>

text \<open>
  \<open>regexp.MustCompile(`pass=[^ ]+`).ReplaceAllString(cmd, "pass=*****")\<close>: scanning
  from the left, every \<open>pass=\<close> that is followed by at least one character other than a
  space is replaced, together with the longest run of such characters after it; the
  scan goes on behind the match.
\<close>

definition notSpace :: "char \<Rightarrow> bool" where
  "notSpace c = (c \<noteq> CHR '' '')"

function redactPassword :: "string \<Rightarrow> string" where
  "redactPassword [] = []"
| "redactPassword (c # cs) =
     (if prefix ''pass='' (c # cs) \<and> takeWhile notSpace (drop 5 (c # cs)) \<noteq> []
      then ''pass=*****'' @ redactPassword (dropWhile notSpace (drop 5 (c # cs)))
      else c # redactPassword cs)"
  by pat_completeness auto
termination
proof (relation "measure length")
  fix c :: char and cs :: string
  have "length (dropWhile notSpace (drop 5 (c # cs))) \<le> length (drop 5 (c # cs))"
    by (rule length_dropWhile_le)
  then show "(dropWhile notSpace (drop 5 (c # cs)), c # cs) \<in> measure length"
    by simp
qed simp_all

text \<open>
  The text that \<open>runBucardoCommand\<close> hands to \<open>runCommand\<close> for logging, after the
  redaction: the command and its arguments joined with spaces.
\<close>

definition logged_command :: "string \<Rightarrow> string list \<Rightarrow> string" where
  "logged_command bucardoCmd args = redactPassword (bucardoCmd @ '' '' @ Join args '' '')"

section \<open>Notions the properties are stated with\<close>




text \<open>A sync is run-once when \<open>exit_on_complete\<close> is set and true.\<close>

definition run_once :: "Sync \<Rightarrow> bool" where
  "run_once s = (ExitOnComplete s = Some True)"

text \<open>
  The deadline in the spec's words: the maximum of the timeouts that the run-once syncs
  configure, absent when none of them configures one.
\<close>

definition run_once_timeouts :: "Sync list \<Rightarrow> int list" where
  "run_once_timeouts ss =
     concat (map (\<lambda>s. if run_once s
                        then (case ExitOnCompleteTimeout s of None \<Rightarrow> [] | Some t \<Rightarrow> [t])
                        else []) ss)"

definition spec_deadline :: "Sync list \<Rightarrow> int option" where
  "spec_deadline ss =
     (if run_once_timeouts ss = [] then None else Some (Max (set (run_once_timeouts ss))))"

text \<open>
  For a declared sync that the engine holds: the output of \<open>SyncExists\<close>, the relgroup
  name the reconciler works with, whether \<open>GetSyncTables\<close> delivers, and the table list
  it delivers. \<open>tr\<close> is the trace before the reconciler turns to the sync.
\<close>

definition engine_details :: "ports \<Rightarrow> Sync \<Rightarrow> call list \<Rightarrow> string" where
  "engine_details P s tr = snd (SyncExists_ret P tr (Name s))"

definition engine_relgroup :: "ports \<Rightarrow> Sync \<Rightarrow> call list \<Rightarrow> string" where
  "engine_relgroup P s tr =
     (if fails P (tr @ [CallSyncExists (Name s)]) (CallGetSyncRelgroup (engine_details P s tr))
      then Name s
      else GetSyncRelgroup_ret P (tr @ [CallSyncExists (Name s)]) (engine_details P s tr))"

definition tables_fetched :: "ports \<Rightarrow> Sync \<Rightarrow> call list \<Rightarrow> bool" where
  "tables_fetched P s tr =
     (\<not> fails P (tr @ [CallSyncExists (Name s), CallGetSyncRelgroup (engine_details P s tr)])
           (CallGetSyncTables (engine_relgroup P s tr)))"

definition engine_tables :: "ports \<Rightarrow> Sync \<Rightarrow> call list \<Rightarrow> string list" where
  "engine_tables P s tr =
     GetSyncTables_ret P
       (tr @ [CallSyncExists (Name s), CallGetSyncRelgroup (engine_details P s tr)])
       (engine_relgroup P s tr)"

text \<open>The three calls with which the reconciler reads an existing sync's tables.\<close>

definition table_queries :: "ports \<Rightarrow> Sync \<Rightarrow> call list \<Rightarrow> call list" where
  "table_queries P s tr =
     [CallSyncExists (Name s), CallGetSyncRelgroup (engine_details P s tr),
      CallGetSyncTables (engine_relgroup P s tr)]"

text \<open>The calls that delete, add and update the sync of a name.\<close>

definition deletes_sync :: "string \<Rightarrow> call \<Rightarrow> bool" where
  "deletes_sync name c =
     (case c of CallRemoveSyncAndRelgroup n _ _ _ _ _ \<Rightarrow> n = name | _ \<Rightarrow> False)"

definition adds_sync :: "string \<Rightarrow> call \<Rightarrow> bool" where
  "adds_sync name c =
     (case c of CallExecuteBucardoCommand args \<Rightarrow> take 3 args = [''add'', ''sync'', name]
      | _ \<Rightarrow> False)"

text \<open>
  The comparison in the spec's words: both lists normalized (entries trimmed, then
  sorted) and compared as sets.
\<close>

definition normalized :: "string list \<Rightarrow> string list" where
  "normalized xs = sort (map TrimSpace xs)"

definition spec_tables_differ :: "string \<Rightarrow> string list \<Rightarrow> bool" where
  "spec_tables_differ desired current =
     (set (normalized (Split_comma desired)) \<noteq> set (normalized current))"

text \<open>
  The calls that reconcile declared entities are the engine commands (add or update of a
  database, of a group, of a herd, of a sync); the calls that prune are the removals of a
  database or of a sync whose name the configuration does not declare.
\<close>

definition reconciles_declared :: "call \<Rightarrow> bool" where
  "reconciles_declared c = (case c of CallExecuteBucardoCommand _ \<Rightarrow> True | _ \<Rightarrow> False)"

definition prunes :: "BucardoConfig \<Rightarrow> call \<Rightarrow> bool" where
  "prunes config c =
     (case c of
        CallRemoveDatabase n \<Rightarrow> \<not> configDbs config n
      | CallRemoveSyncAndRelgroup n _ _ _ _ _ \<Rightarrow> \<not> configSyncs config n
      | _ \<Rightarrow> False)"

text \<open>The order the spec claims: every pruning call after every reconciling call.\<close>

definition pruning_last :: "BucardoConfig \<Rightarrow> call list \<Rightarrow> bool" where
  "pruning_last config tr =
     (\<forall>i j. i < length tr \<and> j < length tr \<and> reconciles_declared (tr ! i) \<and> prunes config (tr ! j)
            \<longrightarrow> i < j)"

text \<open>The order of the source: every pruning call before every reconciling call.\<close>

definition pruning_first :: "BucardoConfig \<Rightarrow> call list \<Rightarrow> bool" where
  "pruning_first config tr =
     (\<forall>i j. i < length tr \<and> j < length tr \<and> reconciles_declared (tr ! i) \<and> prunes config (tr ! j)
            \<longrightarrow> j < i)"

text \<open>A trace that continues another one with calls of one kind only.\<close>

definition grows :: "(call \<Rightarrow> bool) \<Rightarrow> call list \<Rightarrow> call list \<Rightarrow> bool" where
  "grows Q tr tr' = (\<exists>ext. tr' = tr @ ext \<and> (\<forall>x \<in> set ext. Q x))"

definition two_phase :: "BucardoConfig \<Rightarrow> call list \<Rightarrow> call list \<Rightarrow> bool" where
  "two_phase config tr tr' =
     (\<exists>mid. grows (\<lambda>x. \<not> reconciles_declared x) tr mid \<and> grows (\<lambda>x. \<not> prunes config x) mid tr')"

section \<open>Example configurations\<close>

definition db1 :: Database where
  "db1 = \<lparr> ID = 1, DBName = ''app'', Host = ''pg1'', User = ''repl'', Pass = ''secret'',
           Port = None \<rparr>"

definition db2 :: Database where
  "db2 = \<lparr> ID = 2, DBName = ''app'', Host = ''pg2'', User = ''repl'', Pass = ''secret'',
           Port = Some 5433 \<rparr>"

text \<open>A bidirectional sync with one participant and a static strategy, with a name.\<close>

definition lonely_sync :: Sync where
  "lonely_sync =
     \<lparr> Name = ''both'', Sources = [], Targets = [], Bidirectional = [1], Herd = [],
       Tables = ''public.t'', Onetimecopy = 0, StrictChecking = None, ExitOnComplete = None,
       ExitOnCompleteTimeout = None, ConflictStrategy = ''bucardo_source'' \<rparr>"

definition lonely_config :: BucardoConfig where
  "lonely_config = \<lparr> Databases = [db1], Syncs = [lonely_sync], LogLevel = [] \<rparr>"

text \<open>The same sync without a name.\<close>

definition nameless_sync :: Sync where
  "nameless_sync = lonely_sync\<lparr>Name := []\<rparr>"

definition nameless_config :: BucardoConfig where
  "nameless_config = \<lparr> Databases = [db1], Syncs = [nameless_sync], LogLevel = [] \<rparr>"

text \<open>
  A host whose configuration file holds a given configuration, with no environment
  variable set, and an engine that holds nothing and never fails.
\<close>

definition host_of :: "BucardoConfig \<Rightarrow> host" where
  "host_of config =
     \<lparr> environment = Map.empty, configFileExists = True, stored = Some config,
       scanPort = (\<lambda>s. if s = ''5432'' then 5432 else 0) \<rparr>"

definition empty_engine :: ports where
  "empty_engine =
     \<lparr> fails = (\<lambda>tr c. False), ListDatabases_ret = (\<lambda>tr. []),
       DatabaseExists_ret = (\<lambda>tr n. False), ListSyncs_ret = (\<lambda>tr. []),
       SyncExists_ret = (\<lambda>tr n. (False, [])), GetSyncRelgroup_ret = (\<lambda>tr d. []),
       GetSyncTables_ret = (\<lambda>tr n. []) \<rparr>"

text \<open>A database whose password is the indirection \<open>env\<close>, and an environment.\<close>

definition db3_env :: Database where
  "db3_env = \<lparr> ID = 3, DBName = ''app'', Host = ''pg3'', User = ''repl'', Pass = ''env'',
               Port = None \<rparr>"

definition env_with_db3 :: environ where
  "env_with_db3 = [''BUCARDO_DB3'' \<mapsto> ''hunter2'']"

text \<open>An environment in which the variable of database 3 holds the string \<open>env\<close>.\<close>

definition env_literal :: environ where
  "env_literal = [''BUCARDO_DB3'' \<mapsto> ''env'']"

text \<open>A database whose password holds a space.\<close>

definition db_spaced :: Database where
  "db_spaced = \<lparr> ID = 1, DBName = ''app'', Host = ''pg1'', User = ''repl'',
                 Pass = ''my secret'', Port = None \<rparr>"

definition db_spaced' :: Database where
  "db_spaced' = db_spaced\<lparr>Pass := ''my hidden''\<rparr>"

text \<open>A valid configuration with one sync from database 1 to database 2.\<close>

definition sync_A :: Sync where
  "sync_A =
     \<lparr> Name = ''A'', Sources = [1], Targets = [2], Bidirectional = [], Herd = [],
       Tables = ''public.t1,public.t2'', Onetimecopy = 2, StrictChecking = None,
       ExitOnComplete = None, ExitOnCompleteTimeout = None, ConflictStrategy = [] \<rparr>"

definition config_A :: BucardoConfig where
  "config_A = \<lparr> Databases = [db1, db2], Syncs = [sync_A], LogLevel = [] \<rparr>"

definition sync_B :: Sync where
  "sync_B = sync_A\<lparr>Name := ''B'', Tables := ''public.t3''\<rparr>"

definition disk_ok :: disk where
  "disk_ok = \<lparr> write_fails = False, after_failed_write = None \<rparr>"

text \<open>Two run-once syncs, each between the databases 1 and 2 in both directions.\<close>

definition once_a :: Sync where
  "once_a =
     \<lparr> Name = ''alpha'', Sources = [], Targets = [], Bidirectional = [1, 2], Herd = [],
       Tables = ''public.t1'', Onetimecopy = 1, StrictChecking = None,
       ExitOnComplete = Some True, ExitOnCompleteTimeout = Some 30,
       ConflictStrategy = ''bucardo_latest'' \<rparr>"

definition once_b :: Sync where
  "once_b = once_a\<lparr>Name := ''beta'', Tables := ''public.t2'', ExitOnCompleteTimeout := Some 120\<rparr>"

definition once_config :: BucardoConfig where
  "once_config = \<lparr> Databases = [db1, db2], Syncs = [once_a, once_b], LogLevel = ''VERBOSE'' \<rparr>"

text \<open>A run-once sync whose timeout is zero, and a sync that is not run-once.\<close>

definition once_zero :: Sync where
  "once_zero = once_a\<lparr>Name := ''zero'', ExitOnCompleteTimeout := Some 0\<rparr>"

definition steady :: Sync where
  "steady = once_a\<lparr>Name := ''steady'', ExitOnComplete := None, ExitOnCompleteTimeout := None\<rparr>"

definition mixed_config :: BucardoConfig where
  "mixed_config = \<lparr> Databases = [db1, db2], Syncs = [once_a, steady], LogLevel = ''VERBOSE'' \<rparr>"

text \<open>A completion line of the engine's log for the sync \<open>alpha\<close>.\<close>

definition alpha_done :: string where
  "alpha_done = ''(72) [Wed Dec 3 11:07:23 2025] KID (alpha) Kid 72 exiting. Reason: Normal exit''"

text \<open>An engine on which every command fails.\<close>

definition failing_engine :: ports where
  "failing_engine = empty_engine\<lparr>fails := (\<lambda>tr c. True)\<rparr>"


text \<open>The calls of \<open>ReloadAndRestart\<close> for \<open>once_config\<close> on the empty engine.\<close>

definition once_trace :: "call list" where
  "once_trace =
     [CallStopBucardo,
      CallSetupPgpass
        [\<lparr> ID = 0, DBName = ''bucardo'', Host = ''postgres'', User = ''bucardo'',
            Pass = ''changeme'', Port = Some 5432 \<rparr>,
         \<lparr> ID = - 1, DBName = ''bucardo'', Host = ''postgres'', User = ''postgres'',
            Pass = ''changeme'', Port = Some 5432 \<rparr>,
         db1, db2],
      CallEnsureBucardoUserPassword ''postgres'' ''postgres'' ''changeme'' ''bucardo''
        ''changeme'' 5432,
      CallInstallBucardo ''bucardo'' ''postgres'' ''postgres'' ''changeme'',
      CallSetLogLevel ''VERBOSE'', CallListDatabases, CallListSyncs,
      CallDatabaseExists ''db1'',
      CallExecuteBucardoCommand
        [''add'', ''db'', ''db1'', ''dbname=app'', ''host=pg1'', ''user=repl'', ''pass=secret''],
      CallDatabaseExists ''db2'',
      CallExecuteBucardoCommand
        [''add'', ''db'', ''db2'', ''dbname=app'', ''host=pg2'', ''user=repl'', ''pass=secret'',
         ''port=5433''],
      CallSyncExists ''alpha'',
      CallExecuteBucardoCommand [''del'', ''dbgroup'', ''bg_alpha''],
      CallExecuteBucardoCommand [''add'', ''dbgroup'', ''bg_alpha'', ''db1:source'', ''db2:source''],
      CallExecuteBucardoCommand
        [''add'', ''sync'', ''alpha'', ''onetimecopy=1'', ''dbs=bg_alpha'', ''tables=public.t1'',
         ''stayalive=0'', ''kidsalive=0'', ''conflict_strategy=bucardo_latest''],
      CallSyncExists ''beta'',
      CallExecuteBucardoCommand [''del'', ''dbgroup'', ''bg_beta''],
      CallExecuteBucardoCommand [''add'', ''dbgroup'', ''bg_beta'', ''db1:source'', ''db2:source''],
      CallExecuteBucardoCommand
        [''add'', ''sync'', ''beta'', ''onetimecopy=1'', ''dbs=bg_beta'', ''tables=public.t2'',
         ''stayalive=0'', ''kidsalive=0'', ''conflict_strategy=bucardo_latest''],
      CallStartBucardo, CallCleanupPgpass]"

text \<open>
  A sync whose table list names one table twice, on an engine that holds the sync with
  that one table.
\<close>

definition dup_sync :: Sync where
  "dup_sync = once_a\<lparr>Name := ''dup'', Tables := ''public.t1,public.t1'',
                      ExitOnComplete := None, ExitOnCompleteTimeout := None\<rparr>"

definition dup_engine :: ports where
  "dup_engine =
     empty_engine\<lparr>SyncExists_ret := (\<lambda>tr n. (True, ''Relgroup: dup '')),
                  GetSyncRelgroup_ret := (\<lambda>tr d. ''dup''),
                  GetSyncTables_ret := (\<lambda>tr n. [''public.t1''])\<rparr>"

definition local_conn :: conn where
  "local_conn = \<lparr> dbHost = ''postgres'', dbUser = ''postgres'', dbPass = ''changeme'',
                  dbPort = 5432 \<rparr>"

text \<open>The same engine holding the sync with the two tables of \<open>same_sync\<close>.\<close>

definition same_sync :: Sync where
  "same_sync = dup_sync\<lparr>Tables := ''public.t2, public.t1''\<rparr>"

definition same_engine :: ports where
  "same_engine = dup_engine\<lparr>GetSyncTables_ret := (\<lambda>tr n. [''public.t1'', ''public.t2''])\<rparr>"

text \<open>
  The same two tables, the first followed by a no-break space (U+00A0) and the second
  preceded by a next-line character (U+0085), both in UTF-8.
\<close>

definition nbsp_sync :: Sync where
  "nbsp_sync =
     dup_sync\<lparr>Tables := ''public.t1'' @ [CHR 0xC2, CHR 0xA0] @ '','' @ [CHR 0xC2, CHR 0x85]
                          @ ''public.t2''\<rparr>"

text \<open>
  An engine that holds a database and a sync which no configuration here declares, and
  the calls of \<open>ReloadAndRestart\<close> for \<open>once_config\<close> on it.
\<close>

definition orphan_engine :: ports where
  "orphan_engine =
     empty_engine\<lparr>ListDatabases_ret := (\<lambda>tr. [''db9'']),
                  ListSyncs_ret := (\<lambda>tr. [''old'']),
                  SyncExists_ret := (\<lambda>tr n. (n = ''old'', ''Relgroup: old_rg '')),
                  GetSyncRelgroup_ret := (\<lambda>tr d. ''old_rg'')\<rparr>"

definition orphan_trace :: "call list" where
  "orphan_trace =
     take 6 once_trace
     @ [CallRemoveDatabase ''db9'', CallListSyncs, CallSyncExists ''old'',
        CallGetSyncRelgroup ''Relgroup: old_rg '',
        CallRemoveSyncAndRelgroup ''old'' ''old_rg'' ''postgres'' ''postgres'' ''changeme'' 5432]
     @ drop 7 once_trace"

text \<open>
  A runtime on which both log readers start and \<open>range\<close> visits the keys in the order
  they are held, and one on which it visits them by falling length of the name.
\<close>

definition tail_ok :: runtime where
  "tail_ok = \<lparr> tail_starts = True, streamer_starts = True, range_rank = (\<lambda>tr n. 0) \<rparr>"

definition longest_first :: runtime where
  "longest_first = tail_ok\<lparr>range_rank := (\<lambda>tr n. 100 - length n)\<rparr>"

text \<open>
  A log line that reports the end of \<open>alpha\<close> and of \<open>beta\<close>, and one that reports the
  end of \<open>alpha\<close> and only mentions \<open>beta\<close>.
\<close>

definition both_done :: string where
  "both_done = ''KID (alpha) KID (beta) Kid 74 exiting. Reason: Normal exit''"

definition alpha_not_beta :: string where
  "alpha_not_beta = ''KID (alpha) beta (beta KID beta) Kid 75 exiting. Reason: Normal exit''"

text \<open>A valid configuration whose sync names a herd and, being bidirectional, no source.\<close>

definition herd_config :: BucardoConfig where
  "herd_config = once_config\<lparr>Syncs := [once_a\<lparr>Herd := ''h''\<rparr>]\<rparr>"

section \<open>Validation: accumulated errors, and no reconciliation of an invalid configuration\<close>

lemma validate_syncs_member:
  "s \<in> set ss \<Longrightarrow> Name s \<noteq> [] \<Longrightarrow>
   e \<in> set (validate_shape dbIDs s) \<union> set (validate_strategy s) \<Longrightarrow>
   e \<in> set (validate_syncs dbIDs ss names)"
proof (induction ss arbitrary: names)
  case Nil
  then show ?case by simp
next
  case (Cons a ss)
  show ?case
  proof (cases "s = a")
    case True
    with Cons.prems show ?thesis by auto
  next
    case False
    with Cons.prems have "s \<in> set ss" by simp
    from Cons.IH[OF this Cons.prems(2) Cons.prems(3)]
    show ?thesis by simp
  qed
qed

lemma validateConfig_member:
  assumes "s \<in> set (Syncs cfg)" and "Name s \<noteq> []"
    and "e \<in> set (validate_shape (snd (validate_databases (Databases cfg) (\<lambda>_. False))) s)
           \<union> set (validate_strategy s)"
  shows "e \<in> set (validateConfig cfg)"
  using validate_syncs_member[OF assms]
  by (simp add: validateConfig_def case_prod_unfold Let_def)

lemma reload_refuses_invalid:
  "stored H = Some cfg \<Longrightarrow> configFileExists H \<Longrightarrow> validateConfig cfg \<noteq> [] \<Longrightarrow>
   ReloadAndRestart P H tr = (Some ValidationFailed, tr)"
  by (simp add: ReloadAndRestart_def)

lemmas example_defs =
  lonely_config_def lonely_sync_def nameless_config_def nameless_sync_def db1_def db2_def

text \<open>
  C4, amended. A sync with a name that is bidirectional with exactly one participant and
  has a static-priority conflict strategy gets two different validation errors, whatever
  else the configuration holds; every error of its shape and strategy checks is in the
  result (the checks accumulate); and \<open>ReloadAndRestart\<close> on such a configuration returns
  the validation failure without a single call to the engine. (A sync without a name gets
  one error only, for the missing name: its other checks are skipped.)
\<close>

theorem validation_two_errors:
  assumes "s \<in> set (Syncs cfg)" and "Name s \<noteq> []" and "length (Bidirectional s) = 1"
    and "ConflictStrategy s = ''bucardo_source'' \<or> ConflictStrategy s = ''bucardo_target''"
  shows "BidirectionalTooFew (Name s) \<in> set (validateConfig cfg)
       \<and> BidirectionalStaticStrategy (Name s) (ConflictStrategy s) \<in> set (validateConfig cfg)
       \<and> BidirectionalTooFew (Name s) \<noteq> BidirectionalStaticStrategy (Name s) (ConflictStrategy s)
       \<and> set (validate_shape (snd (validate_databases (Databases cfg) (\<lambda>_. False))) s)
            \<union> set (validate_strategy s) \<subseteq> set (validateConfig cfg)
       \<and> (\<forall>P H tr. stored H = Some cfg \<and> configFileExists H \<longrightarrow>
             ReloadAndRestart P H tr = (Some ValidationFailed, tr))"
proof -
  let ?ids = "snd (validate_databases (Databases cfg) (\<lambda>_. False))"
  have sub: "set (validate_shape ?ids s) \<union> set (validate_strategy s) \<subseteq> set (validateConfig cfg)"
    using validateConfig_member[OF assms(1,2)] by blast
  have a: "BidirectionalTooFew (Name s) \<in> set (validate_shape ?ids s)"
    using assms(3) by (simp add: validate_shape_def)
  have b: "BidirectionalStaticStrategy (Name s) (ConflictStrategy s) \<in> set (validate_shape ?ids s)"
    using assms(3,4) by (auto simp add: validate_shape_def)
  from a sub have a': "BidirectionalTooFew (Name s) \<in> set (validateConfig cfg)" by blast
  from b sub have b': "BidirectionalStaticStrategy (Name s) (ConflictStrategy s) \<in> set (validateConfig cfg)"
    by blast
  from a' have ne: "validateConfig cfg \<noteq> []" by auto
  have c: "\<forall>P H tr. stored H = Some cfg \<and> configFileExists H \<longrightarrow>
             ReloadAndRestart P H tr = (Some ValidationFailed, tr)"
    using reload_refuses_invalid[OF _ _ ne] by blast
  show ?thesis using a' b' sub c by simp
qed

theorem validation_two_errors_witness:
  "lonely_sync \<in> set (Syncs lonely_config) \<and> Name lonely_sync \<noteq> []
   \<and> length (Bidirectional lonely_sync) = 1 \<and> ConflictStrategy lonely_sync = ''bucardo_source''
   \<and> BidirectionalTooFew ''both'' \<in> set (validateConfig lonely_config)
   \<and> BidirectionalStaticStrategy ''both'' ''bucardo_source'' \<in> set (validateConfig lonely_config)
   \<and> stored (host_of lonely_config) = Some lonely_config \<and> configFileExists (host_of lonely_config)
   \<and> ReloadAndRestart empty_engine (host_of lonely_config) [] = (Some ValidationFailed, [])"
proof -
  have 1: "lonely_sync \<in> set (Syncs lonely_config)" by (simp add: lonely_config_def)
  have 2: "Name lonely_sync \<noteq> []" by (simp add: lonely_sync_def)
  have 3: "length (Bidirectional lonely_sync) = 1" by (simp add: lonely_sync_def)
  have 4: "ConflictStrategy lonely_sync = ''bucardo_source''
           \<or> ConflictStrategy lonely_sync = ''bucardo_target''"
    by (simp add: lonely_sync_def)
  have 5: "Name lonely_sync = ''both''" "ConflictStrategy lonely_sync = ''bucardo_source''"
    by (simp_all add: lonely_sync_def)
  have 6: "stored (host_of lonely_config) = Some lonely_config \<and> configFileExists (host_of lonely_config)"
    by (simp add: host_of_def)
  show ?thesis using validation_two_errors[OF 1 2 3 4] 1 2 3 5 6 by simp
qed

text \<open>
  The claim as it stands fails for a sync without a name: the configuration
  \<open>nameless_config\<close> holds a bidirectional sync with one participant and the strategy
  \<open>bucardo_source\<close>, and validation returns one error.
\<close>

theorem validation_two_errors_counterexample:
  "\<not> (\<forall>cfg s. s \<in> set (Syncs cfg) \<and> length (Bidirectional s) = 1
          \<and> (ConflictStrategy s = ''bucardo_source'' \<or> ConflictStrategy s = ''bucardo_target'')
        \<longrightarrow> 2 \<le> length (validateConfig cfg))"
proof
  assume h: "\<forall>cfg s. s \<in> set (Syncs cfg) \<and> length (Bidirectional s) = 1
          \<and> (ConflictStrategy s = ''bucardo_source'' \<or> ConflictStrategy s = ''bucardo_target'')
        \<longrightarrow> 2 \<le> length (validateConfig cfg)"
  have v: "validateConfig nameless_config = [MissingSyncName]"
    by (simp add: validateConfig_def example_defs)
  have "nameless_sync \<in> set (Syncs nameless_config) \<and> length (Bidirectional nameless_sync) = 1
        \<and> (ConflictStrategy nameless_sync = ''bucardo_source''
            \<or> ConflictStrategy nameless_sync = ''bucardo_target'')"
    by (simp add: example_defs)
  with h have "2 \<le> length (validateConfig nameless_config)" by blast
  with v show False by simp
qed

section \<open>Password resolution\<close>

lemma show_int_3: "show_int 3 = ''3''"
  by (simp add: show_int_def digits.simps digit_char_def)

text \<open>
  C8, amended. For a database whose \<open>pass\<close> is the literal \<open>env\<close> the password is the
  value of the environment variable \<open>BUCARDO_DB<ID>\<close>, and the resolution fails when the
  variable is not set or is empty; any other \<open>pass\<close> is returned as it is. So the \<open>pass\<close>
  value \<open>env\<close> is reserved, it is never taken as the password itself: the password is
  \<open>env\<close> exactly when \<open>pass\<close> is \<open>env\<close> and the variable holds the string \<open>env\<close>. The
  credential manager's copy of the function agrees with the orchestrator's.
\<close>

theorem getDbPassword_resolution:
  "(Pass db = ''env'' \<longrightarrow>
      getDbPassword env db =
        (case env (''BUCARDO_DB'' @ show_int (ID db)) of
           None \<Rightarrow> Inl (EnvVarNotSet (''BUCARDO_DB'' @ show_int (ID db)) (ID db))
         | Some v \<Rightarrow> if v = [] then Inl (EnvVarNotSet (''BUCARDO_DB'' @ show_int (ID db)) (ID db))
                     else Inr v))
   \<and> (Pass db \<noteq> ''env'' \<longrightarrow> getDbPassword env db = Inr (Pass db))
   \<and> (getDbPassword env db = Inr ''env''
        \<longleftrightarrow> Pass db = ''env'' \<and> env (''BUCARDO_DB'' @ show_int (ID db)) = Some ''env'')
   \<and> PgpassManager_getDbPassword env db = getDbPassword env db"
  by (auto simp add: getDbPassword_def PgpassManager_getDbPassword_def Getenv_def Let_def
      split: option.splits)

text \<open>
  The claim as it stands fails when the variable itself holds the string \<open>env\<close>: the
  password of the database is then \<open>env\<close>.
\<close>

theorem getDbPassword_resolution_counterexample:
  "\<not> (\<forall>env db. Pass db = ''env'' \<longrightarrow> getDbPassword env db \<noteq> Inr ''env'')"
proof
  assume "\<forall>env db. Pass db = ''env'' \<longrightarrow> getDbPassword env db \<noteq> Inr ''env''"
  then have "Pass db3_env = ''env'' \<longrightarrow> getDbPassword env_literal db3_env \<noteq> Inr ''env''"
    by blast
  moreover have "Pass db3_env = ''env''" by (simp add: db3_env_def)
  moreover have "getDbPassword env_literal db3_env = Inr ''env''"
    by (simp add: getDbPassword_def Getenv_def db3_env_def env_literal_def show_int_3)
  ultimately show False by simp
qed

theorem getDbPassword_resolution_witness:
  "Pass db3_env = ''env''
   \<and> getDbPassword env_with_db3 db3_env = Inr ''hunter2''
   \<and> getDbPassword Map.empty db3_env = Inl (EnvVarNotSet ''BUCARDO_DB3'' 3)
   \<and> env_literal (''BUCARDO_DB'' @ show_int (ID db3_env)) = Some ''env''
   \<and> getDbPassword env_literal db3_env = Inr ''env''
   \<and> Pass db1 \<noteq> ''env'' \<and> getDbPassword env_with_db3 db1 = Inr ''secret''"
  using getDbPassword_resolution[of db3_env env_with_db3]
        getDbPassword_resolution[of db3_env Map.empty]
        getDbPassword_resolution[of db3_env env_literal]
        getDbPassword_resolution[of db1 env_with_db3]
  by (simp add: db3_env_def env_with_db3_def env_literal_def db1_def show_int_3)

section \<open>Password redaction\<close>

text \<open>
  C10. The redaction stops at the first space: of a password that holds a space, what
  follows the space is logged, and two commands that differ only in that part of the
  password are logged differently.
\<close>

theorem redactPassword_leaks_after_space:
  "logged_command ''bucardo'' (db_args False db_spaced (Pass db_spaced))
     = ''bucardo add db db1 dbname=app host=pg1 user=repl pass=***** secret''
   \<and> logged_command ''bucardo'' (db_args False db_spaced' (Pass db_spaced'))
     = ''bucardo add db db1 dbname=app host=pg1 user=repl pass=***** hidden''"
  by (simp add: logged_command_def db_args_def db_spaced_def db_spaced'_def dbName_of_def
      show_int_def digits.simps digit_char_def notSpace_def)

section \<open>The administrative sync operations\<close>

lemma replace_first_names:
  "replace_first name u ss = (ss', True) \<Longrightarrow> map Name ss' = map Name ss"
  by (induction ss arbitrary: ss') (auto split: if_splits prod.splits)

lemma replace_first_found:
  "snd (replace_first name u ss) = (\<exists>s \<in> set ss. Name s = name)"
  by (induction ss) (auto split: prod.splits)

lemma AddSync_duplicate:
  "\<exists>existing \<in> set (Syncs cfg). Name existing = Name sync \<Longrightarrow>
   AddSync D sync (Some cfg) = (Some (SyncAlreadyExists (Name sync)), Some cfg)"
  by (simp add: AddSync_def)

lemma AddSync_success:
  "AddSync D sync (Some cfg) = (None, st') \<Longrightarrow>
   Name sync \<notin> Name ` set (Syncs cfg) \<and> st' = Some (cfg\<lparr>Syncs := Syncs cfg @ [sync]\<rparr>)"
  by (auto simp add: AddSync_def UpdateConfig_def SaveConfig_def split: if_splits)

lemma UpdateSync_success:
  "UpdateSync D name updated (Some cfg) = (None, st') \<Longrightarrow>
   \<exists>cfg'. st' = Some cfg' \<and> map Name (Syncs cfg') = map Name (Syncs cfg)"
  by (auto simp add: UpdateSync_def UpdateConfig_def SaveConfig_def
      split: if_splits prod.splits dest: replace_first_names)

lemma DeleteSync_success:
  "DeleteSync D name (Some cfg) = (None, st') \<Longrightarrow>
   st' = Some (cfg\<lparr>Syncs := filter (\<lambda>s. Name s \<noteq> name) (Syncs cfg)\<rparr>)"
  by (auto simp add: DeleteSync_def UpdateConfig_def SaveConfig_def split: if_splits)

lemma sync_not_found:
  assumes "\<not> (\<exists>s \<in> set (Syncs cfg). Name s = name)"
  shows "UpdateSync D name updated (Some cfg) = (Some (SyncNotFound name), Some cfg)
        \<and> DeleteSync D name (Some cfg) = (Some (SyncNotFound name), Some cfg)"
proof -
  have "snd (replace_first name updated (Syncs cfg)) = False"
    using assms replace_first_found[of name updated "Syncs cfg"] by simp
  then have "UpdateSync D name updated (Some cfg) = (Some (SyncNotFound name), Some cfg)"
    by (cases "replace_first name updated (Syncs cfg)") (simp add: UpdateSync_def)
  moreover from assms have "DeleteSync D name (Some cfg) = (Some (SyncNotFound name), Some cfg)"
    by (simp add: DeleteSync_def)
  ultimately show ?thesis by simp
qed

lemma unique_names_kept:
  assumes d: "distinct (map Name (Syncs cfg))"
    and h: "AddSync D sync (Some cfg) = (None, st')
         \<or> UpdateSync D name updated (Some cfg) = (None, st')
         \<or> DeleteSync D name (Some cfg) = (None, st')"
  shows "\<exists>cfg'. st' = Some cfg' \<and> distinct (map Name (Syncs cfg'))"
proof -
  from h consider (a) "AddSync D sync (Some cfg) = (None, st')"
    | (u) "UpdateSync D name updated (Some cfg) = (None, st')"
    | (del) "DeleteSync D name (Some cfg) = (None, st')" by blast
  then show ?thesis
  proof cases
    case a
    from AddSync_success[OF a] d show ?thesis by auto
  next
    case u
    from UpdateSync_success[OF u] d show ?thesis by auto
  next
    case del
    from DeleteSync_success[OF del] d show ?thesis by (auto simp add: distinct_map_filter)
  qed
qed

text \<open>
  C9. \<open>AddSync\<close> with a name that is already stored returns an error and leaves the
  stored state as it was; when it succeeds the name was new and the sync is appended.
  A successful \<open>UpdateSync\<close> stores a configuration with the same list of sync names, so
  it neither renames a sync nor adds a name. \<open>UpdateSync\<close> and \<open>DeleteSync\<close> of a name
  that is not stored return an error and leave the state as it was. If the stored names
  are pairwise different, they are so after every successful operation.
\<close>

theorem admin_ops_keep_names_unique:
  "((\<exists>existing \<in> set (Syncs cfg). Name existing = Name sync) \<longrightarrow>
      AddSync D sync (Some cfg) = (Some (SyncAlreadyExists (Name sync)), Some cfg))
   \<and> (AddSync D sync (Some cfg) = (None, st') \<longrightarrow>
        Name sync \<notin> Name ` set (Syncs cfg) \<and> st' = Some (cfg\<lparr>Syncs := Syncs cfg @ [sync]\<rparr>))
   \<and> (UpdateSync D name updated (Some cfg) = (None, st') \<longrightarrow>
        (\<exists>cfg'. st' = Some cfg' \<and> map Name (Syncs cfg') = map Name (Syncs cfg)))
   \<and> (\<not> (\<exists>s \<in> set (Syncs cfg). Name s = name) \<longrightarrow>
        UpdateSync D name updated (Some cfg) = (Some (SyncNotFound name), Some cfg)
        \<and> DeleteSync D name (Some cfg) = (Some (SyncNotFound name), Some cfg))
   \<and> (distinct (map Name (Syncs cfg)) \<and>
        (AddSync D sync (Some cfg) = (None, st')
         \<or> UpdateSync D name updated (Some cfg) = (None, st')
         \<or> DeleteSync D name (Some cfg) = (None, st')) \<longrightarrow>
        (\<exists>cfg'. st' = Some cfg' \<and> distinct (map Name (Syncs cfg'))))"
  using AddSync_duplicate[of cfg sync D] AddSync_success[of D sync cfg st']
    UpdateSync_success[of D name updated cfg st'] sync_not_found[of cfg name D updated]
    unique_names_kept[of cfg D sync st' name updated]
  by blast

lemma valid_A: "validateConfig config_A = []"
  by (simp add: validateConfig_def config_A_def sync_A_def db1_def db2_def validate_shape_def validate_strategy_def)

lemma valid_AB: "validateConfig (config_A\<lparr>Syncs := [sync_B\<lparr>Name := ''A''\<rparr>]\<rparr>) = []"
  by (simp add: validateConfig_def config_A_def sync_A_def sync_B_def db1_def db2_def validate_shape_def validate_strategy_def)

theorem admin_ops_keep_names_unique_witness:
  "(\<exists>existing \<in> set (Syncs config_A). Name existing = Name sync_A)
   \<and> AddSync disk_ok sync_A (Some config_A) = (Some (SyncAlreadyExists ''A''), Some config_A)
   \<and> UpdateSync disk_ok ''A'' sync_B (Some config_A)
       = (None, Some (config_A\<lparr>Syncs := [sync_B\<lparr>Name := ''A''\<rparr>]\<rparr>))
   \<and> map Name (Syncs (config_A\<lparr>Syncs := [sync_B\<lparr>Name := ''A''\<rparr>]\<rparr>)) = map Name (Syncs config_A)
   \<and> \<not> (\<exists>s \<in> set (Syncs config_A). Name s = ''B'')
   \<and> DeleteSync disk_ok ''B'' (Some config_A) = (Some (SyncNotFound ''B''), Some config_A)
   \<and> distinct (map Name (Syncs config_A))"
proof -
  have u: "UpdateSync disk_ok ''A'' sync_B (Some config_A)
       = (None, Some (config_A\<lparr>Syncs := [sync_B\<lparr>Name := ''A''\<rparr>]\<rparr>))"
  proof -
    have r: "replace_first ''A'' sync_B (Syncs config_A) = ([sync_B\<lparr>Name := ''A''\<rparr>], True)"
      by (simp add: config_A_def sync_A_def)
    have c: "UpdateConfig disk_ok (config_A\<lparr>Syncs := [sync_B\<lparr>Name := ''A''\<rparr>]\<rparr>) (Some config_A)
             = (None, Some (config_A\<lparr>Syncs := [sync_B\<lparr>Name := ''A''\<rparr>]\<rparr>))"
      by (simp add: UpdateConfig_def SaveConfig_def valid_AB disk_ok_def)
    show ?thesis by (simp add: UpdateSync_def r c)
  qed
  have n: "Name sync_A = ''A''" by (simp add: sync_A_def)
  have s: "Syncs config_A = [sync_A]" by (simp add: config_A_def)
  show ?thesis
    using admin_ops_keep_names_unique[of config_A sync_A disk_ok
        "Some (config_A\<lparr>Syncs := [sync_B\<lparr>Name := ''A''\<rparr>]\<rparr>)" "''A''" sync_B]
      admin_ops_keep_names_unique[of config_A sync_A disk_ok
        "Some (config_A\<lparr>Syncs := [sync_B\<lparr>Name := ''A''\<rparr>]\<rparr>)" "''B''" sync_B]
      u n s
    by simp
qed

section \<open>The completion monitor\<close>

lemmas show_eval = show_int_def digits.simps digit_char_def show_bool_def

lemmas once_eval = once_config_def mixed_config_def once_a_def once_b_def steady_def once_zero_def
  db1_def db2_def host_of_def empty_engine_def

lemmas reload_eval = ReloadAndRestart_def reload_body_def reconcile_def removeOrphanedDbs_def
  removeOrphanedSyncs_def addDatabasesToBucardo_def addSyncsToBucardo_def reconcile_sync_def
  reconcile_tables_def create_sync_def update_sync_def add_sync_def run_ignored_def invoke_def
  setLogLevel_def allDBsForPass_def connection_def getEnv_def configDbs_def configSyncs_def
  dbName_of_def getDbPassword_def Getenv_def db_args_def add_args_def update_args_def
  strict_arg_def conflict_arg_def dbgroupName_def bg_name_def dbgroupMembers_def
  source_members_def RemoveSyncAndRelgroup_def remove_orphan_sync_def

lemma stop_matching_eq:
  "stop_matching P l visit pending tr =
     (filter (\<lambda>n. \<not> (n \<in> set visit \<and> Contains l (kid_marker n))) pending,
      tr @ map (\<lambda>n. CallExecuteBucardoCommand [''stop'', n])
             (filter (\<lambda>n. Contains l (kid_marker n)) visit))"
proof (induction visit arbitrary: pending tr)
  case Nil
  then show ?case by simp
next
  case (Cons a visit)
  show ?case
  proof (cases "Contains l (kid_marker a)")
    case True
    have "filter (\<lambda>n. \<not> (n \<in> set visit \<and> Contains l (kid_marker n))) (removeAll a pending)
          = filter (\<lambda>n. \<not> (n \<in> set (a # visit) \<and> Contains l (kid_marker n))) pending"
      using True by (induction pending) auto
    with True Cons.IH[of "removeAll a pending"] show ?thesis by (simp add: invoke_def)
  next
    case False
    have "filter (\<lambda>n. \<not> (n \<in> set visit \<and> Contains l (kid_marker n))) pending
          = filter (\<lambda>n. \<not> (n \<in> set (a # visit) \<and> Contains l (kid_marker n))) pending"
      using False by (induction pending) auto
    with False Cons.IH[of pending] show ?thesis by simp
  qed
qed

lemma process_line_eq:
  "process_line P L l pending tr =
     (if Contains l ''Reason: Normal exit''
      then (filter (\<lambda>n. \<not> Contains l (kid_marker n)) pending,
            tr @ map (\<lambda>n. CallExecuteBucardoCommand [''stop'', n])
                   (filter (\<lambda>n. Contains l (kid_marker n))
                      (sort_key (range_rank L tr) pending)))
      else (pending, tr))"
proof -
  have "filter (\<lambda>n. \<not> (n \<in> set (sort_key (range_rank L tr) pending)
                         \<and> Contains l (kid_marker n))) pending
        = filter (\<lambda>n. \<not> Contains l (kid_marker n)) pending"
    by (rule filter_cong) simp_all
  then show ?thesis by (simp add: process_line_def stop_matching_eq)
qed

lemma process_line_calls:
  "take (length tr) (snd (process_line P L l pending tr)) = tr
   \<and> mset (drop (length tr) (snd (process_line P L l pending tr))) =
       (if Contains l ''Reason: Normal exit''
        then image_mset (\<lambda>n. CallExecuteBucardoCommand [''stop'', n])
               (filter_mset (\<lambda>n. Contains l (kid_marker n)) (mset pending))
        else {#})"
  by (simp add: process_line_eq)

lemma MonitorBucardo_engine_free: "MonitorBucardo P L es st = MonitorBucardo P' L es st"
  by (induction P L es st rule: MonitorBucardo.induct) (simp_all add: invoke_def)

lemma process_line_engine_free: "process_line P L l pending tr = process_line P' L l pending tr"
  by (simp add: process_line_eq)

lemma watch_engine_free: "watch P L a ch pending es st = watch P' L a ch pending es st"
proof (induction P L a ch pending es st rule: watch.induct)
  case (6 P L a ch pending l es tr pub)
  obtain p' tr' where pl: "process_line P L l pending tr = (p', tr')"
    by (cases "process_line P L l pending tr")
  then have pl': "process_line P' L l pending tr = (p', tr')"
    using process_line_engine_free[of P L l pending tr P'] by simp
  show ?case
    using 6[OF pl[symmetric]] pl pl' MonitorBucardo_engine_free[of P L es _ P']
    by (simp add: invoke_def)
qed (simp_all add: invoke_def split: option.splits)

lemma watch_line:
  "watch P L a ch pending (Line l # es) (tr, pub) =
     (if fst (process_line P L l pending tr) = [] then
        (if a then (Returned, snd (process_line P L l pending tr) @ [CallStopBucardo], pub @ [l])
         else MonitorBucardo P L es (snd (process_line P L l pending tr), pub @ [l]))
      else watch P L a ch (fst (process_line P L l pending tr)) es
             (snd (process_line P L l pending tr), pub @ [l]))"
  by (cases "process_line P L l pending tr") (simp add: invoke_def)


text \<open>
  C5. A line with the phrase \<open>Reason: Normal exit\<close> is tested against every pending
  name: the syncs whose name occurs in it in the form \<open>KID (<name>)\<close> leave the pending
  set and get one \<open>stop\<close> command each (in the order in which the runtime visits the
  map), the others stay; any other line changes nothing. While a pending sync remains
  the monitor goes on watching. What the engine answers to a \<open>stop\<close> has no influence on
  the monitor: it behaves the same on any two engines.
\<close>

theorem completion_line_stops_matching:
  "fst (process_line P L l pending tr) =
     (if Contains l ''Reason: Normal exit''
      then filter (\<lambda>n. \<not> Contains l (''KID ('' @ n @ '')'')) pending
      else pending)
   \<and> take (length tr) (snd (process_line P L l pending tr)) = tr
   \<and> mset (drop (length tr) (snd (process_line P L l pending tr))) =
       (if Contains l ''Reason: Normal exit''
        then image_mset (\<lambda>n. CallExecuteBucardoCommand [''stop'', n])
               (filter_mset (\<lambda>n. Contains l (''KID ('' @ n @ '')'')) (mset pending))
        else {#})
   \<and> watch P L a ch pending (Line l # es) (tr, pub) =
     (if fst (process_line P L l pending tr) = [] then
        (if a then (Returned, snd (process_line P L l pending tr) @ [CallStopBucardo], pub @ [l])
         else MonitorBucardo P L es (snd (process_line P L l pending tr), pub @ [l]))
      else watch P L a ch (fst (process_line P L l pending tr)) es
             (snd (process_line P L l pending tr), pub @ [l]))
   \<and> watch P L a ch pending es st = watch P' L a ch pending es st"
proof -
  have k: "\<And>n. kid_marker n = ''KID ('' @ n @ '')''" by (simp add: kid_marker_def)
  have a: "fst (process_line P L l pending tr) =
     (if Contains l ''Reason: Normal exit''
      then filter (\<lambda>n. \<not> Contains l (''KID ('' @ n @ '')'')) pending
      else pending)"
    using process_line_eq[of P L l pending tr] unfolding k by simp
  show ?thesis
    using a process_line_calls[of tr P L l pending, unfolded k]
      watch_line[of P L a ch pending l es tr pub]
      watch_engine_free[of P L a ch pending es st P']
    by (intro conjI) simp_all
qed

lemma contains_phrase: "Contains alpha_done ''Reason: Normal exit''"
  by (simp add: alpha_done_def)

lemma contains_alpha: "Contains alpha_done (kid_marker ''alpha'')"
  by (simp add: alpha_done_def kid_marker_def)

lemma contains_beta: "\<not> Contains alpha_done (kid_marker ''beta'')"
  by (simp add: alpha_done_def kid_marker_def)

lemma mentions_beta:
  "Contains alpha_not_beta ''Reason: Normal exit''
   \<and> Contains alpha_not_beta ''KID (alpha)'' \<and> Contains alpha_not_beta ''beta''
   \<and> \<not> Contains alpha_not_beta ''KID (beta)''"
  by (simp add: alpha_not_beta_def)

lemma both_done_eval:
  "Contains both_done ''Reason: Normal exit''
   \<and> Contains both_done ''KID (alpha)'' \<and> Contains both_done ''KID (beta)''"
  by (simp add: both_done_def)

text \<open>The order of the \<open>stop\<close> commands for one line follows the runtime's order.\<close>

lemma stop_order_open:
  "snd (process_line failing_engine tail_ok both_done [''beta'', ''alpha''] [])
     = [CallExecuteBucardoCommand [''stop'', ''beta''],
        CallExecuteBucardoCommand [''stop'', ''alpha'']]
   \<and> snd (process_line failing_engine longest_first both_done [''beta'', ''alpha''] [])
     = [CallExecuteBucardoCommand [''stop'', ''alpha''],
        CallExecuteBucardoCommand [''stop'', ''beta'']]"
  by (simp add: process_line_eq both_done_eval kid_marker_def tail_ok_def longest_first_def)

theorem completion_line_stops_matching_witness:
  "Contains alpha_not_beta ''beta''
   \<and> fst (process_line failing_engine tail_ok alpha_not_beta [''alpha'', ''beta''] []) = [''beta'']
   \<and> mset (snd (process_line failing_engine tail_ok alpha_not_beta [''alpha'', ''beta''] []))
       = {#CallExecuteBucardoCommand [''stop'', ''alpha'']#}
   \<and> watch failing_engine tail_ok False (Some 1) [''alpha'', ''beta''] [Line alpha_not_beta] ([], [])
     = (Waiting, [CallExecuteBucardoCommand [''stop'', ''alpha'']], [alpha_not_beta])
   \<and> fst (process_line failing_engine longest_first both_done [''beta'', ''alpha''] []) = []
   \<and> mset (snd (process_line failing_engine longest_first both_done [''beta'', ''alpha''] []))
       = {#CallExecuteBucardoCommand [''stop'', ''alpha''],
           CallExecuteBucardoCommand [''stop'', ''beta'']#}"
proof -
  note A = completion_line_stops_matching[of failing_engine tail_ok alpha_not_beta
      "[''alpha'', ''beta'']" "[]" False "Some 1" "[]" "[]" "([], [])" empty_engine]
  note B = completion_line_stops_matching[of failing_engine longest_first both_done
      "[''beta'', ''alpha'']" "[]" False "Some 1" "[]" "[]" "([], [])" empty_engine]
  have s: "snd (process_line failing_engine tail_ok alpha_not_beta [''alpha'', ''beta''] [])
             = [CallExecuteBucardoCommand [''stop'', ''alpha'']]"
    by (simp add: process_line_eq mentions_beta kid_marker_def tail_ok_def)
  from A have a1: "fst (process_line failing_engine tail_ok alpha_not_beta [''alpha'', ''beta''] [])
                     = [''beta'']"
    by (simp add: mentions_beta)
  from A have a2: "mset (snd (process_line failing_engine tail_ok alpha_not_beta [''alpha'', ''beta''] []))
       = {#CallExecuteBucardoCommand [''stop'', ''alpha'']#}"
    by (simp add: mentions_beta)
  from A a1 s have a3: "watch failing_engine tail_ok False (Some 1) [''alpha'', ''beta'']
       [Line alpha_not_beta] ([], [])
     = (Waiting, [CallExecuteBucardoCommand [''stop'', ''alpha'']], [alpha_not_beta])"
    by simp
  from B have b1: "fst (process_line failing_engine longest_first both_done [''beta'', ''alpha''] []) = []"
    by (simp add: both_done_eval)
  from B have b2: "mset (snd (process_line failing_engine longest_first both_done [''beta'', ''alpha''] []))
       = {#CallExecuteBucardoCommand [''stop'', ''alpha''],
           CallExecuteBucardoCommand [''stop'', ''beta'']#}"
    by (simp add: both_done_eval)
  from mentions_beta a1 a2 a3 b1 b2 show ?thesis by (intro conjI) simp_all
qed








lemma Run_after_reload:
  assumes "ReloadAndRestart P H [] = (None, tr0)" and "stored H = Some cfg"
    and "fst (run_once_scan (Syncs cfg) [] None) \<noteq> []"
  shows "Run P H L events =
           (case MonitorSyncs P L cfg (fst (run_once_scan (Syncs cfg) [] None))
                   (snd (run_once_scan (Syncs cfg) [] None)) events (tr0, []) of
              (Returned, st) \<Rightarrow> (Exit 0, st)
            | (Exited n, st) \<Rightarrow> (Exit n, st)
            | (Waiting, st) \<Rightarrow> (Running, st))"
  using assms by (simp add: Run_def case_prod_unfold split: outcome.split)

text \<open>
  A valid configuration can lead the creation path into its panic; the process then
  ends with status 2.
\<close>

lemma Run_panic_status:
  "validateConfig herd_config = []
   \<and> fst (ReloadAndRestart empty_engine (host_of herd_config) []) = Some PanicIndexOutOfRange
   \<and> fst (Run empty_engine (host_of herd_config) L events) = Exit 2"
proof -
  have v: "validateConfig herd_config = []"
    by (simp add: validateConfig_def herd_config_def once_eval validate_shape_def
        validate_strategy_def validStrategies_def)
  have r: "fst (ReloadAndRestart empty_engine (host_of herd_config) []) = Some PanicIndexOutOfRange"
    by (simp add: reload_eval Let_def show_eval once_eval herd_config_def validateConfig_def
        validate_shape_def validate_strategy_def validStrategies_def)
  then have "fst (Run empty_engine (host_of herd_config) L events) = Exit 2"
    by (cases "ReloadAndRestart empty_engine (host_of herd_config) []") (simp add: Run_def)
  with v r show ?thesis by simp
qed



lemma valid_mixed: "validateConfig mixed_config = []"
  by (simp add: validateConfig_def once_eval validate_shape_def validate_strategy_def
      validStrategies_def)

lemma reload_once: "ReloadAndRestart empty_engine (host_of once_config) [] = (None, once_trace)"
  by (simp add: reload_eval Let_def show_eval once_eval once_trace_def validateConfig_def
      validate_shape_def validate_strategy_def validStrategies_def)



lemma scan_once: "run_once_scan (Syncs once_config) [] None = ([''beta'', ''alpha''], Some 120)"
  by (simp add: once_eval)

lemma scan_mixed: "run_once_scan (Syncs mixed_config) [] None = ([''alpha''], Some 30)"
  by (simp add: once_eval)


section \<open>The completion deadline\<close>

lemma Max_insert_max:
  "finite T \<Longrightarrow> Max (insert (max m t) T) = Max (insert (m::int) (insert t T))"
proof (cases "T = {}")
  case True
  then show ?thesis by simp
next
  case False
  assume "finite T"
  with False show ?thesis by (simp add: max.assoc)
qed

lemma scan_timeout:
  "snd (run_once_scan ss keys mt) =
     (case mt of
        None \<Rightarrow> spec_deadline ss
      | Some m \<Rightarrow> Some (Max (insert m (set (run_once_timeouts ss)))))"
proof (induction ss arbitrary: keys mt)
  case Nil
  then show ?case by (simp add: spec_deadline_def run_once_timeouts_def split: option.splits)
next
  case (Cons a ss)
  have T: "run_once_timeouts (a # ss) =
           (if run_once a then (case ExitOnCompleteTimeout a of None \<Rightarrow> [] | Some t \<Rightarrow> [t]) else [])
           @ run_once_timeouts ss"
    by (simp add: run_once_timeouts_def)
  show ?case
  proof (cases "run_once a")
    case False
    then show ?thesis using Cons.IH[of keys mt] T
      by (simp add: run_once_def spec_deadline_def split: option.splits)
  next
    case True
    show ?thesis
    proof (cases "ExitOnCompleteTimeout a")
      case None
      then show ?thesis using True Cons.IH[of "List.insert (Name a) keys" mt] T
        by (simp add: run_once_def spec_deadline_def split: option.splits)
    next
      case (Some t)
      show ?thesis
      proof (cases mt)
        case None
        then show ?thesis using True Some Cons.IH[of "List.insert (Name a) keys" "Some t"] T
          by (simp add: run_once_def spec_deadline_def split: option.splits)
      next
        case (Some m)
        have "(if m < t then Some t else Some m) = Some (max m t)" by (simp add: max_def)
        then show ?thesis
          using True \<open>ExitOnCompleteTimeout a = Some t\<close> Some
            Cons.IH[of "List.insert (Name a) keys" "Some (max m t)"] T
            Max_insert_max[of "set (run_once_timeouts ss)" m t]
          by (simp add: run_once_def)
      qed
    qed
  qed
qed

lemma timeoutDuration_exact:
  assumes "- 9223372036 \<le> t" and "t \<le> 9223372036"
  shows "timeoutDuration t = t * 1000000000"
proof -
  have "(word_of_int t :: 64 word) * 1000000000 = word_of_int (t * 1000000000)"
    by simp
  then have "timeoutDuration t = sint (word_of_int (t * 1000000000) :: 64 word)"
    by (simp only: timeoutDuration_def)
  also have "\<dots> = signed_take_bit 63 (t * 1000000000)"
    by (subst sint_sbintrunc') simp
  also have "\<dots> = t * 1000000000"
    using assms by (intro signed_take_bit_int_eq_self) simp_all
  finally show ?thesis .
qed

lemma watch_clock:
  "watch P L a (timeout_channel mt) pending (Clock now # es) (tr, pub) =
     (case timeout_channel mt of
        None \<Rightarrow> watch P L a (timeout_channel mt) pending es (tr, pub)
      | Some d \<Rightarrow>
          if d \<le> int now then (Exited 1, tr @ [CallStopBucardo], pub)
          else watch P L a (timeout_channel mt) pending es (tr, pub))"
  by (simp add: invoke_def split: option.splits)

text \<open>
  Beyond 9223372036 seconds the count of nanoseconds wraps around: for 9223372037 it is
  negative, and the timer fires at once.
\<close>

lemma timeoutDuration_wraps:
  "timeoutDuration 9223372037 = - 9223372036709551616
   \<and> MonitorSyncs P tail_ok cfg pending (Some 9223372037) (Clock 0 # es) (tr, pub)
       = (Exited 1, tr @ [CallStopBucardo], pub)"
proof -
  have w: "timeoutDuration 9223372037 = - 9223372036709551616"
    by (simp add: timeoutDuration_def)
  have c: "timeout_channel (Some 9223372037) = Some (- 9223372036709551616)"
    using w by (simp add: timeout_channel_def)
  have "MonitorSyncs P tail_ok cfg pending (Some 9223372037) (Clock 0 # es) (tr, pub)
       = (Exited 1, tr @ [CallStopBucardo], pub)"
    unfolding MonitorSyncs_def c by (simp add: invoke_def tail_ok_def)
  with w show ?thesis by simp
qed

text \<open>
  C7, amended. The value \<open>Run\<close> hands to the monitor is the maximum of the timeouts that
  the run-once syncs configure, and none when none of them configures one. The monitor
  (its log reader having started) watches with a deadline only for a positive value; for
  one of at most 9223372036 seconds the deadline is that many seconds: when the monitor
  turns to the timer in the watching state, whatever is pending, it stops the engine and
  ends the process with status 1 if that time has passed, and goes on watching if it has
  not. With no value, or with a maximum that is zero or negative, there is no deadline
  and no timeout transition.
\<close>

theorem timeout_transition:
  "snd (run_once_scan (Syncs cfg) [] None) = spec_deadline (Syncs cfg)
   \<and> (run_once_timeouts (Syncs cfg) = [] \<longrightarrow> spec_deadline (Syncs cfg) = None)
   \<and> (tail_starts L \<longrightarrow>
       MonitorSyncs P L cfg keys mt events st =
         watch P L (length (Syncs cfg) = length keys) (timeout_channel mt) keys events st)
   \<and> (0 < t \<and> t \<le> 9223372036 \<longrightarrow>
       watch P L a (timeout_channel (Some t)) pending (Clock now # es) (tr, pub) =
         (if t * 1000000000 \<le> int now then (Exited 1, tr @ [CallStopBucardo], pub)
          else watch P L a (timeout_channel (Some t)) pending es (tr, pub)))
   \<and> (mt = None \<or> (\<exists>z. mt = Some z \<and> z \<le> 0) \<longrightarrow>
       watch P L a (timeout_channel mt) pending (Clock now # es) (tr, pub) =
         watch P L a (timeout_channel mt) pending es (tr, pub))
   \<and> (ReloadAndRestart P H [] = (None, tr0) \<and> stored H = Some cfg
        \<and> fst (run_once_scan (Syncs cfg) [] None) \<noteq> [] \<longrightarrow>
       Run P H L events =
         (case MonitorSyncs P L cfg (fst (run_once_scan (Syncs cfg) [] None))
                 (snd (run_once_scan (Syncs cfg) [] None)) events (tr0, []) of
            (Returned, st) \<Rightarrow> (Exit 0, st)
          | (Exited n, st) \<Rightarrow> (Exit n, st)
          | (Waiting, st) \<Rightarrow> (Running, st)))"
proof -
  have a: "snd (run_once_scan (Syncs cfg) [] None) = spec_deadline (Syncs cfg)"
    using scan_timeout[of "Syncs cfg" "[]" None] by simp
  have b: "run_once_timeouts (Syncs cfg) = [] \<longrightarrow> spec_deadline (Syncs cfg) = None"
    by (simp add: spec_deadline_def)
  have m: "tail_starts L \<longrightarrow>
       MonitorSyncs P L cfg keys mt events st =
         watch P L (length (Syncs cfg) = length keys) (timeout_channel mt) keys events st"
    by (simp add: MonitorSyncs_def)
  have c: "0 < t \<and> t \<le> 9223372036 \<longrightarrow>
       watch P L a (timeout_channel (Some t)) pending (Clock now # es) (tr, pub) =
         (if t * 1000000000 \<le> int now then (Exited 1, tr @ [CallStopBucardo], pub)
          else watch P L a (timeout_channel (Some t)) pending es (tr, pub))"
  proof
    assume h: "0 < t \<and> t \<le> 9223372036"
    then have d: "timeout_channel (Some t) = Some (t * 1000000000)"
      using timeoutDuration_exact[of t] by (simp add: timeout_channel_def)
    show "watch P L a (timeout_channel (Some t)) pending (Clock now # es) (tr, pub) =
         (if t * 1000000000 \<le> int now then (Exited 1, tr @ [CallStopBucardo], pub)
          else watch P L a (timeout_channel (Some t)) pending es (tr, pub))"
      using watch_clock[of P L a "Some t" pending now es tr pub] unfolding d by simp
  qed
  have d: "mt = None \<or> (\<exists>z. mt = Some z \<and> z \<le> 0) \<longrightarrow>
       watch P L a (timeout_channel mt) pending (Clock now # es) (tr, pub) =
         watch P L a (timeout_channel mt) pending es (tr, pub)"
  proof
    assume "mt = None \<or> (\<exists>z. mt = Some z \<and> z \<le> 0)"
    then have n: "timeout_channel mt = None" by (auto simp add: timeout_channel_def)
    show "watch P L a (timeout_channel mt) pending (Clock now # es) (tr, pub) =
         watch P L a (timeout_channel mt) pending es (tr, pub)"
      using watch_clock[of P L a mt pending now es tr pub] unfolding n by simp
  qed
  show ?thesis using a b m c d Run_after_reload[of P H tr0 cfg L events] by blast
qed

text \<open>
  The claim as it stands fails for a run-once sync whose configured timeout is \<open>0\<close>: the
  maximum of the configured timeouts is \<open>0\<close>, and the monitor uses no deadline.
\<close>

theorem timeout_transition_counterexample:
  "\<not> (\<forall>ss. timeout_channel (snd (run_once_scan ss [] None))
             = map_option (\<lambda>t. t * 1000000000) (spec_deadline ss))"
proof
  assume "\<forall>ss. timeout_channel (snd (run_once_scan ss [] None))
             = map_option (\<lambda>t. t * 1000000000) (spec_deadline ss)"
  then have "timeout_channel (snd (run_once_scan [once_zero] [] None))
             = map_option (\<lambda>t. t * 1000000000) (spec_deadline [once_zero])"
    by blast
  moreover have "timeout_channel (snd (run_once_scan [once_zero] [] None)) = None"
    by (simp add: once_zero_def once_a_def timeout_channel_def)
  moreover have "spec_deadline [once_zero] = Some 0"
    by (simp add: once_zero_def once_a_def spec_deadline_def run_once_timeouts_def run_once_def)
  ultimately show False by simp
qed


theorem timeout_transition_witness:
  "run_once_timeouts (Syncs config_A) = []
   \<and> spec_deadline (Syncs config_A) = None
   \<and> spec_deadline (Syncs once_config) = Some 120
   \<and> ReloadAndRestart empty_engine (host_of once_config) [] = (None, once_trace)
   \<and> stored (host_of once_config) = Some once_config
   \<and> fst (run_once_scan (Syncs once_config) [] None) \<noteq> []
   \<and> tail_starts tail_ok
   \<and> MonitorSyncs empty_engine tail_ok once_config [''beta''] (Some 120)
         [Clock 120000000000] ([], [])
       = (Exited 1, [CallStopBucardo], [])
   \<and> MonitorSyncs empty_engine tail_ok once_config [''beta''] (Some 120)
         [Clock 119999999999] ([], [])
       = (Waiting, [], [])
   \<and> MonitorSyncs empty_engine tail_ok once_config [''beta''] (Some 0)
         [Clock 120000000000] ([], [])
       = (Waiting, [], [])
   \<and> Run empty_engine (host_of once_config) tail_ok [Line alpha_done, Clock 120000000000]
       = (Exit 1,
          once_trace @ [CallExecuteBucardoCommand [''stop'', ''alpha''], CallStopBucardo],
          [alpha_done])"
proof -
  have n: "run_once_timeouts (Syncs config_A) = []"
    by (simp add: run_once_timeouts_def run_once_def config_A_def sync_A_def)
  have h: "stored (host_of once_config) = Some once_config" by (simp add: host_of_def)
  have keys: "fst (run_once_scan (Syncs once_config) [] None) \<noteq> []"
    by (simp add: scan_once)
  have t: "tail_starts tail_ok" by (simp add: tail_ok_def)
  note T = timeout_transition[where cfg = once_config and P = empty_engine
      and H = "host_of once_config" and ?tr0.0 = once_trace
      and events = "[Line alpha_done, Clock 120000000000]" and L = tail_ok and t = 120
      and pending = "[''beta'']" and es = "[]" and tr = "[]" and pub = "[]"
      and a = False]
  note U = timeout_transition[where cfg = config_A]
  note M = timeout_transition[where cfg = once_config and P = empty_engine and L = tail_ok
      and keys = "[''beta'']" and st = "([], [])", THEN conjunct2, THEN conjunct2,
      THEN conjunct1, rule_format, OF t]
  have f: "(length (Syncs once_config) = length [''beta'']) = False"
    by (simp add: once_config_def)
  from U n have d0: "spec_deadline (Syncs config_A) = None" by blast
  from T have s: "spec_deadline (Syncs once_config) = Some 120"
    by (simp add: scan_once)
  from T[where now = 120000000000]
  have k1: "MonitorSyncs empty_engine tail_ok once_config [''beta''] (Some 120)
         [Clock 120000000000] ([], [])
       = (Exited 1, [CallStopBucardo], [])"
    unfolding M f by simp
  from T[where now = 119999999999]
  have k2: "MonitorSyncs empty_engine tail_ok once_config [''beta''] (Some 120)
         [Clock 119999999999] ([], [])
       = (Waiting, [], [])"
    unfolding M f by simp
  from T[where mt = "Some 0" and now = 120000000000]
  have k3: "MonitorSyncs empty_engine tail_ok once_config [''beta''] (Some 0)
         [Clock 120000000000] ([], [])
       = (Waiting, [], [])"
    unfolding M f by simp
  have m: "MonitorSyncs empty_engine tail_ok once_config [''beta'', ''alpha''] (Some 120)
             [Line alpha_done, Clock 120000000000] (once_trace, [])
           = (Exited 1,
              once_trace @ [CallExecuteBucardoCommand [''stop'', ''alpha''], CallStopBucardo],
              [alpha_done])"
    using timeoutDuration_exact[of 120]
    by (simp add: MonitorSyncs_def once_config_def process_line_eq contains_phrase contains_alpha
        contains_beta invoke_def timeout_channel_def tail_ok_def)
  from T reload_once h keys
  have "Run empty_engine (host_of once_config) tail_ok [Line alpha_done, Clock 120000000000]
       = (case MonitorSyncs empty_engine tail_ok once_config (fst (run_once_scan (Syncs once_config) [] None))
                   (snd (run_once_scan (Syncs once_config) [] None))
                   [Line alpha_done, Clock 120000000000] (once_trace, []) of
              (Returned, st) \<Rightarrow> (Exit 0, st)
            | (Exited n, st) \<Rightarrow> (Exit n, st)
            | (Waiting, st) \<Rightarrow> (Running, st))"
    by blast
  then have r: "Run empty_engine (host_of once_config) tail_ok [Line alpha_done, Clock 120000000000]
       = (Exit 1,
          once_trace @ [CallExecuteBucardoCommand [''stop'', ''alpha''], CallStopBucardo],
          [alpha_done])"
    by (simp add: scan_once m)
  from n d0 s reload_once h keys t k1 k2 k3 r show ?thesis by blast
qed

section \<open>The membership-group name\<close>

subsection \<open>Decimal digits\<close>

lemma digit_char_inj: "a < 10 \<Longrightarrow> b < 10 \<Longrightarrow> digit_char a = digit_char b \<Longrightarrow> a = b"
  by (simp add: digit_char_def split: if_splits; arith)

lemma digit_char_plain:
  "digit_char d \<noteq> CHR '','' \<and> digit_char d \<noteq> CHR ''-'' \<and> digit_char d \<noteq> CHR '':''"
  by (simp add: digit_char_def)

lemma digits_nonempty: "digits n \<noteq> []"
  by (subst digits.simps) simp

lemma digits_length_one: "length (digits n) = Suc 0 \<longleftrightarrow> n < 10"
proof
  assume "length (digits n) = Suc 0"
  show "n < 10"
  proof (rule ccontr)
    assume "\<not> n < 10"
    then have "digits n = digits (n div 10) @ [digit_char (n mod 10)]"
      by (subst digits.simps) simp
    with \<open>length (digits n) = Suc 0\<close> have "digits (n div 10) = []" by simp
    with digits_nonempty show False by blast
  qed
next
  assume "n < 10"
  then have "digits n = [digit_char n]" by (subst digits.simps) simp
  then show "length (digits n) = Suc 0" by simp
qed

lemma digits_inj: "digits n = digits m \<Longrightarrow> n = m"
proof (induction n arbitrary: m rule: digits.induct)
  case (1 n)
  show ?case
  proof (cases "n < 10")
    case True
    then have "length (digits n) = 1" by (simp add: digits_length_one)
    with "1.prems" have "length (digits m) = 1" by simp
    then have m: "m < 10" by (simp add: digits_length_one)
    from True have "digits n = [digit_char n]" by (subst digits.simps) simp
    moreover from m have "digits m = [digit_char m]" by (subst digits.simps) simp
    ultimately have "digit_char n = digit_char m" using "1.prems" by simp
    with True m show ?thesis by (rule digit_char_inj)
  next
    case False
    then have "length (digits n) \<noteq> 1" by (simp add: digits_length_one)
    with "1.prems" have "length (digits m) \<noteq> 1" by simp
    then have m: "\<not> m < 10" by (simp add: digits_length_one)
    from False have dn: "digits n = digits (n div 10) @ [digit_char (n mod 10)]"
      by (subst digits.simps) simp
    from m have dm: "digits m = digits (m div 10) @ [digit_char (m mod 10)]"
      by (subst digits.simps) simp
    from dn dm "1.prems" have a: "digits (n div 10) = digits (m div 10)"
      and b: "digit_char (n mod 10) = digit_char (m mod 10)" by simp_all
    from "1.IH"[OF False a] have q: "n div 10 = m div 10" .
    from b have r: "n mod 10 = m mod 10" by (intro digit_char_inj) simp_all
    have "n = (n div 10) * 10 + n mod 10" by simp
    also have "\<dots> = (m div 10) * 10 + m mod 10" using q r by simp
    also have "\<dots> = m" by simp
    finally show ?thesis .
  qed
qed

lemma digits_plain:
  "c \<in> set (digits n) \<Longrightarrow> c \<noteq> CHR '','' \<and> c \<noteq> CHR ''-'' \<and> c \<noteq> CHR '':''"
proof (induction n rule: digits.induct)
  case (1 n)
  show ?case
  proof (cases "n < 10")
    case True
    then have "digits n = [digit_char n]" by (subst digits.simps) simp
    with "1.prems" show ?thesis using digit_char_plain by simp
  next
    case False
    then have "digits n = digits (n div 10) @ [digit_char (n mod 10)]"
      by (subst digits.simps) simp
    with "1.prems" "1.IH"[OF False] show ?thesis using digit_char_plain by auto
  qed
qed

lemma show_int_inj: "show_int i = show_int j \<Longrightarrow> i = j"
proof -
  assume h: "show_int i = show_int j"
  have no_minus: "\<And>n. hd (digits n) \<noteq> CHR ''-''"
    using digits_plain digits_nonempty by (metis hd_in_set)
  show ?thesis
  proof (cases "i < 0")
    case True
    show ?thesis
    proof (cases "j < 0")
      case True
      with \<open>i < 0\<close> h have "digits (nat (- i)) = digits (nat (- j))" by (simp add: show_int_def)
      then have "nat (- i) = nat (- j)" by (rule digits_inj)
      with True \<open>i < 0\<close> show ?thesis by simp
    next
      case False
      with \<open>i < 0\<close> h have "CHR ''-'' # digits (nat (- i)) = digits (nat j)"
        by (simp add: show_int_def)
      then have "hd (digits (nat j)) = CHR ''-''" by (metis list.sel(1))
      with no_minus show ?thesis by blast
    qed
  next
    case False
    show ?thesis
    proof (cases "j < 0")
      case True
      with False h have "digits (nat i) = CHR ''-'' # digits (nat (- j))"
        by (simp add: show_int_def)
      then have "hd (digits (nat i)) = CHR ''-''" by simp
      with no_minus show ?thesis by blast
    next
      case False
      with \<open>\<not> i < 0\<close> h have "digits (nat i) = digits (nat j)" by (simp add: show_int_def)
      then have "nat i = nat j" by (rule digits_inj)
      with False \<open>\<not> i < 0\<close> show ?thesis by simp
    qed
  qed
qed

lemma show_int_no_comma: "CHR '','' \<notin> set (show_int i)"
  using digits_plain by (auto simp add: show_int_def)


subsection \<open>Join and Split\<close>

lemma Split_comma_plain: "CHR '','' \<notin> set x \<Longrightarrow> Split_comma x = [x]"
  by (induction x) auto

lemma Split_comma_append:
  "CHR '','' \<notin> set x \<Longrightarrow> Split_comma (x @ CHR '','' # rest) = x # Split_comma rest"
  by (induction x) auto

lemma Split_Join:
  "xs \<noteq> [] \<Longrightarrow> \<forall>x \<in> set xs. CHR '','' \<notin> set x \<Longrightarrow> Split_comma (Join xs '','') = xs"
proof (induction xs "'',''" rule: Join.induct)
  case 1
  then show ?case by simp
next
  case (2 x)
  then show ?case by (simp add: Split_comma_plain)
next
  case (3 x y ys)
  then show ?case by (simp add: Split_comma_append)
qed

lemma Join_empty_iff:
  "\<forall>x \<in> set xs. x \<noteq> [] \<Longrightarrow> Join xs sep = [] \<longleftrightarrow> xs = []"
  by (induction xs sep rule: Join.induct) auto

lemma Join_inj:
  assumes "\<forall>x \<in> set xs. CHR '','' \<notin> set x \<and> x \<noteq> []"
    and "\<forall>y \<in> set ys. CHR '','' \<notin> set y \<and> y \<noteq> []"
    and "Join xs '','' = Join ys '',''"
  shows "xs = ys"
proof (cases "xs = []")
  case True
  with assms(3) have "Join ys '','' = []" by simp
  with assms(2) have "ys = []" using Join_empty_iff[of ys "'',''"] by blast
  with True show ?thesis by simp
next
  case False
  with assms(1) have "Join xs '','' \<noteq> []" using Join_empty_iff[of xs "'',''"] by blast
  with assms(3) have "Join ys '','' \<noteq> []" by simp
  then have ys: "ys \<noteq> []" by auto
  have "xs = Split_comma (Join xs '','')" using Split_Join[OF False] assms(1) by simp
  also have "\<dots> = Split_comma (Join ys '','')" using assms(3) by simp
  also have "\<dots> = ys" using Split_Join[OF ys] assms(2) by simp
  finally show ?thesis .
qed

subsection \<open>The membership-group name\<close>

lemma member_plain:
  "x \<in> set (memberNames srcs tgts) \<Longrightarrow> CHR '','' \<notin> set x \<and> x \<noteq> []"
  using show_int_no_comma
  by (auto simp add: memberNames_def source_members_def target_members_def)

lemma source_member_inj: "inj (\<lambda>i. ''db'' @ show_int i @ '':source'')"
  by (rule injI) (simp add: show_int_inj)

lemma target_member_inj: "inj (\<lambda>i. ''db'' @ show_int i @ '':target'')"
  by (rule injI) (simp add: show_int_inj)

lemma image_mset_inj: "inj f \<Longrightarrow> image_mset f A = image_mset f B \<Longrightarrow> A = B"
proof -
  assume i: "inj f" and e: "image_mset f A = image_mset f B"
  have "image_mset (inv f) (image_mset f A) = image_mset (inv f) (image_mset f B)"
    using e by simp
  then show "A = B" using i by (simp add: multiset.map_comp comp_def)
qed

lemma members_mset_split:
  assumes "mset (memberNames s1 t1) = mset (memberNames s2 t2)"
  shows "mset s1 = mset s2 \<and> mset t1 = mset t2"
proof -
  let ?f = "\<lambda>i. ''db'' @ show_int i @ '':source''"
  let ?g = "\<lambda>i. ''db'' @ show_int i @ '':target''"
  let ?src = "\<lambda>x. last x = CHR ''e''"
  have e: "image_mset ?f (mset s1) + image_mset ?g (mset t1)
         = image_mset ?f (mset s2) + image_mset ?g (mset t2)"
    using assms by (simp add: memberNames_def source_members_def target_members_def)
  have f: "\<And>A. filter_mset ?src (image_mset ?f A) = image_mset ?f A"
    by (simp add: filter_mset_image_mset)
  have g: "\<And>A. filter_mset ?src (image_mset ?g A) = {#}"
    by (simp add: filter_mset_image_mset)
  have f': "\<And>A. filter_mset (\<lambda>x. \<not> ?src x) (image_mset ?f A) = {#}"
    by (simp add: filter_mset_image_mset)
  have g': "\<And>A. filter_mset (\<lambda>x. \<not> ?src x) (image_mset ?g A) = image_mset ?g A"
    by (simp add: filter_mset_image_mset)
  from e have "filter_mset ?src (image_mset ?f (mset s1) + image_mset ?g (mset t1))
             = filter_mset ?src (image_mset ?f (mset s2) + image_mset ?g (mset t2))" by simp
  then have "image_mset ?f (mset s1) = image_mset ?f (mset s2)"
    by (simp only: filter_union_mset f g add_0_right)
  then have a: "mset s1 = mset s2" by (rule image_mset_inj[OF source_member_inj])
  from e have "filter_mset (\<lambda>x. \<not> ?src x) (image_mset ?f (mset s1) + image_mset ?g (mset t1))
             = filter_mset (\<lambda>x. \<not> ?src x) (image_mset ?f (mset s2) + image_mset ?g (mset t2))"
    by simp
  then have "image_mset ?g (mset t1) = image_mset ?g (mset t2)"
    by (simp only: filter_union_mset f' g' add_0_left)
  then have b: "mset t1 = mset t2" by (rule image_mset_inj[OF target_member_inj])
  from a b show ?thesis by simp
qed

lemma group_content_perm:
  assumes "mset s1 = mset s2" and "mset t1 = mset t2"
  shows "group_content s1 t1 = group_content s2 t2"
proof -
  have "mset (memberNames s1 t1) = mset (memberNames s2 t2)"
    using assms by (simp add: memberNames_def source_members_def target_members_def)
  then have "sort (memberNames s1 t1) = sort (memberNames s2 t2)"
    by (metis properties_for_sort mset_sort sorted_sort)
  then show ?thesis by (simp add: group_content_def)
qed

lemma group_content_inj:
  assumes "group_content s1 t1 = group_content s2 t2"
  shows "mset s1 = mset s2 \<and> mset t1 = mset t2"
proof -
  have p1: "\<forall>x \<in> set (sort (memberNames s1 t1)). CHR '','' \<notin> set x \<and> x \<noteq> []"
    using member_plain by simp
  have p2: "\<forall>x \<in> set (sort (memberNames s2 t2)). CHR '','' \<notin> set x \<and> x \<noteq> []"
    using member_plain by simp
  from assms have "Join (sort (memberNames s1 t1)) '','' = Join (sort (memberNames s2 t2)) '',''"
    by (simp add: group_content_def)
  from Join_inj[OF p1 p2 this] have "sort (memberNames s1 t1) = sort (memberNames s2 t2)" .
  then have "mset (sort (memberNames s1 t1)) = mset (sort (memberNames s2 t2))" by simp
  then have "mset (memberNames s1 t1) = mset (memberNames s2 t2)" by simp
  then show ?thesis by (rule members_mset_split)
qed

text \<open>
  C3, amended. For a sync that is not bidirectional the group name is determined by the
  sync's name and the multiset of role-annotated participants: two source and target
  lists that are permutations of each other give the same name. The text that is hashed
  identifies that multiset (it is the same for two memberships exactly when they are
  permutations of each other), and two names of one sync are equal exactly when the first
  four bytes of the digests are; so different memberships get different names unless the
  32-bit prefixes of their digests collide. For a bidirectional sync the name is \<open>bg_\<close>
  followed by the sync's name.
\<close>

theorem group_identity_by_membership:
  "(mset s1 = mset s2 \<and> mset t1 = mset t2 \<longrightarrow> sg_name n s1 t1 = sg_name n s2 t2)
   \<and> (group_content s1 t1 = group_content s2 t2 \<longleftrightarrow> mset s1 = mset s2 \<and> mset t1 = mset t2)
   \<and> (sg_name n s1 t1 = sg_name n s2 t2 \<longleftrightarrow>
        show_hex (take 4 (sha1_Sum (group_content s1 t1)))
          = show_hex (take 4 (sha1_Sum (group_content s2 t2))))
   \<and> (Bidirectional s \<noteq> [] \<longrightarrow> dbgroupName s = ''bg_'' @ Name s)
   \<and> (Bidirectional s = [] \<longrightarrow> dbgroupName s = sg_name (Name s) (Sources s) (Targets s))"
  using group_content_perm[of s1 s2 t1 t2] group_content_inj[of s1 t1 s2 t2]
  by (auto simp add: sg_name_def dbgroupName_def bg_name_def)


theorem group_identity_by_membership_witness:
  "mset [1, 2 :: int] = mset [2, 1] \<and> mset [3 :: int] = mset [3]
   \<and> sg_name ''A'' [1, 2] [3] = sg_name ''A'' [2, 1] [3]
   \<and> group_content [1, 2] [3] = group_content [2, 1] [3]
   \<and> Bidirectional once_a \<noteq> [] \<and> dbgroupName once_a = ''bg_alpha''
   \<and> Bidirectional sync_A = [] \<and> dbgroupName sync_A = sg_name ''A'' [1] [2]"
proof -
  have m: "mset [1, 2 :: int] = mset [2, 1] \<and> mset [3 :: int] = mset [3]" by simp
  note T = group_identity_by_membership[where ?s1.0 = "[1, 2]" and ?s2.0 = "[2, 1]"
      and ?t1.0 = "[3]" and ?t2.0 = "[3]" and n = "''A''"]
  from T[where s = once_a] m have a: "sg_name ''A'' [1, 2] [3] = sg_name ''A'' [2, 1] [3]"
    and b: "group_content [1, 2] [3] = group_content [2, 1] [3]" by blast+
  have c: "Bidirectional once_a \<noteq> []" "Bidirectional sync_A = []"
    by (simp_all add: once_a_def sync_A_def)
  from T[where s = once_a] c have d: "dbgroupName once_a = ''bg_alpha''"
    by (simp add: once_a_def)
  from T[where s = sync_A] c have e: "dbgroupName sync_A = sg_name ''A'' [1] [2]"
    by (simp add: sync_A_def)
  from m a b c d e show ?thesis by blast
qed

section \<open>Destructive re-creation of a sync\<close>

lemma snd_add_sync:
  "snd (add_sync P s sel tr) = tr @ [CallExecuteBucardoCommand (add_args s sel)]"
  by (simp add: add_sync_def invoke_def split: bool.splits)

lemma snd_update_sync:
  "snd (update_sync P s tr) = tr @ [CallExecuteBucardoCommand (update_args s)]"
  by (simp add: update_sync_def invoke_def split: bool.splits)

lemma snd_run_ignored: "run_ignored P args tr = tr @ [CallExecuteBucardoCommand args]"
  by (simp add: run_ignored_def invoke_def)

declare snd_add_sync [simp] snd_update_sync [simp] snd_run_ignored [simp]

lemma create_sync_calls:
  "\<exists>ext. snd (create_sync P s tr) = tr @ ext \<and> (\<forall>x \<in> set ext. \<exists>args. x = CallExecuteBucardoCommand args)"
  by (auto simp add: create_sync_def Let_def split: list.splits)

lemma create_sync_plain:
  "Herd s = [] \<Longrightarrow>
   snd (create_sync P s tr) =
     tr @ [CallExecuteBucardoCommand [''del'', ''dbgroup'', dbgroupName s],
           CallExecuteBucardoCommand ([''add'', ''dbgroup'', dbgroupName s] @ dbgroupMembers s),
           CallExecuteBucardoCommand
             (add_args s (if Tables s \<noteq> [] then [''tables='' @ Tables s] else []))]"
  by (simp add: create_sync_def Let_def)

lemma reconcile_existing:
  assumes "\<not> fails P tr (CallSyncExists (Name s))" and "fst (SyncExists_ret P tr (Name s))"
    and "Tables s \<noteq> []" and "tables_fetched P s tr"
  shows "reconcile_sync P c s tr =
           (if tables_changed (engine_tables P s tr) s then
              (if fails P (tr @ table_queries P s tr)
                    (RemoveSyncAndRelgroup c (Name s) (engine_relgroup P s tr))
               then (Some (DeleteForRecreationFailed (Name s)),
                     tr @ table_queries P s tr
                        @ [RemoveSyncAndRelgroup c (Name s) (engine_relgroup P s tr)])
               else create_sync P s
                      (tr @ table_queries P s tr
                          @ [RemoveSyncAndRelgroup c (Name s) (engine_relgroup P s tr)]))
            else update_sync P s (tr @ table_queries P s tr))"
proof (cases "fails P (tr @ [CallSyncExists (Name s)]) (CallGetSyncRelgroup (engine_details P s tr))")
  case True
  then have rg: "engine_relgroup P s tr = Name s" by (simp add: engine_relgroup_def)
  from assms(4) rg have tf: "\<not> fails P (tr @ [CallSyncExists (Name s),
        CallGetSyncRelgroup (engine_details P s tr)]) (CallGetSyncTables (Name s))"
    by (simp add: tables_fetched_def)
  have et: "engine_tables P s tr = GetSyncTables_ret P
       (tr @ [CallSyncExists (Name s), CallGetSyncRelgroup (engine_details P s tr)]) (Name s)"
    by (simp add: engine_tables_def rg)
  have tq: "table_queries P s tr = [CallSyncExists (Name s),
      CallGetSyncRelgroup (engine_details P s tr), CallGetSyncTables (Name s)]"
    by (simp add: table_queries_def rg)
  show ?thesis
    using assms(1-3) True tf
    unfolding et tq rg
    by (simp add: reconcile_sync_def reconcile_tables_def invoke_def Let_def
        engine_details_def split: bool.splits)
next
  case False
  then have rg: "engine_relgroup P s tr =
      GetSyncRelgroup_ret P (tr @ [CallSyncExists (Name s)]) (engine_details P s tr)"
    by (simp add: engine_relgroup_def)
  from assms(4) have tf: "\<not> fails P (tr @ [CallSyncExists (Name s),
        CallGetSyncRelgroup (engine_details P s tr)])
        (CallGetSyncTables (GetSyncRelgroup_ret P (tr @ [CallSyncExists (Name s)])
           (engine_details P s tr)))"
    by (simp add: tables_fetched_def rg)
  have et: "engine_tables P s tr = GetSyncTables_ret P
       (tr @ [CallSyncExists (Name s), CallGetSyncRelgroup (engine_details P s tr)])
       (GetSyncRelgroup_ret P (tr @ [CallSyncExists (Name s)]) (engine_details P s tr))"
    by (simp add: engine_tables_def rg)
  have tq: "table_queries P s tr = [CallSyncExists (Name s),
      CallGetSyncRelgroup (engine_details P s tr),
      CallGetSyncTables (GetSyncRelgroup_ret P (tr @ [CallSyncExists (Name s)])
           (engine_details P s tr))]"
    by (simp add: table_queries_def rg)
  show ?thesis
    using assms(1-3) False tf
    unfolding et tq rg
    by (simp add: reconcile_sync_def reconcile_tables_def invoke_def Let_def
        engine_details_def split: bool.splits)
qed


lemma Split_comma_nonempty: "Split_comma s \<noteq> []"
  by (induction s) (auto split: list.splits)

lemma Split_comma_no_comma: "x \<in> set (Split_comma s) \<Longrightarrow> CHR '','' \<notin> set x"
proof (induction s arbitrary: x)
  case Nil
  then show ?case by simp
next
  case (Cons c cs)
  show ?case
  proof (cases "c = CHR '',''")
    case True
    with Cons show ?thesis by auto
  next
    case False
    obtain w ws where sp: "Split_comma cs = w # ws"
      using Split_comma_nonempty[of cs] by (cases "Split_comma cs") auto
    with False Cons.prems have "x = c # w \<or> x \<in> set ws" by simp
    moreover have "CHR '','' \<notin> set w" using Cons.IH[of w] sp by simp
    moreover have "x \<in> set ws \<Longrightarrow> CHR '','' \<notin> set x" using Cons.IH[of x] sp by simp
    ultimately show ?thesis using False by auto
  qed
qed

lemma set_TrimLeft: "set (TrimLeft x) \<subseteq> set x"
proof (induction x rule: TrimLeft.induct)
  case (1 s)
  show ?case
  proof (cases "leading_space s = 0")
    case True
    then show ?thesis by (simp add: TrimLeft.simps)
  next
    case False
    have "TrimLeft s = TrimLeft (drop (leading_space s) s)"
      using False TrimLeft.simps[of s] by simp
    moreover have "set (drop (leading_space s) s) \<subseteq> set s" by (rule set_drop_subset)
    ultimately show ?thesis using 1[OF False] by auto
  qed
qed

lemma set_TrimRight: "set (TrimRight x) \<subseteq> set x"
proof (induction x rule: TrimRight.induct)
  case (1 s)
  show ?case
  proof (cases "trailing_space s = 0")
    case True
    then show ?thesis by (simp add: TrimRight.simps)
  next
    case False
    have "TrimRight s = TrimRight (take (length s - trailing_space s) s)"
      using False TrimRight.simps[of s] by simp
    moreover have "set (take (length s - trailing_space s) s) \<subseteq> set s"
      by (rule set_take_subset)
    ultimately show ?thesis using 1[OF False] by auto
  qed
qed

lemma set_TrimSpace: "set (TrimSpace x) \<subseteq> set x"
  using set_TrimLeft[of x] set_TrimRight[of "TrimLeft x"] by (auto simp add: TrimSpace_def)

lemmas trim_eval = TrimSpace_def TrimLeft.simps[of "_ # _"] TrimRight.simps[of "_ # _"]
  TrimLeft.simps[of "[]"] TrimRight.simps[of "[]"] leading_space_def trailing_space_def
  spaces_def suffix_to_prefix

lemma configTables_plain: "configTables s \<noteq> [] \<and> (\<forall>x \<in> set (configTables s). CHR '','' \<notin> set x)"
proof -
  have "length (configTables s) = length (Split_comma (Tables s))"
    by (simp add: configTables_def)
  then have "configTables s \<noteq> []"
    using Split_comma_nonempty[of "Tables s"] by (metis length_0_conv)
  moreover have "\<forall>x \<in> set (configTables s). CHR '','' \<notin> set x"
    using Split_comma_no_comma set_TrimSpace by (fastforce simp add: configTables_def)
  ultimately show ?thesis by simp
qed

lemma Join_eq_configTables:
  assumes "cur \<noteq> []" and "\<forall>t \<in> set cur. CHR '','' \<notin> set t"
  shows "Join cur '','' = Join (configTables s) '','' \<longleftrightarrow> cur = configTables s"
proof
  assume e: "Join cur '','' = Join (configTables s) '',''"
  have "cur = Split_comma (Join cur '','')" using Split_Join[OF assms] by simp
  also have "\<dots> = Split_comma (Join (configTables s) '','')" using e by simp
  also have "\<dots> = configTables s" using Split_Join[of "configTables s"] configTables_plain by simp
  finally show "cur = configTables s" .
next
  assume "cur = configTables s"
  then show "Join cur '','' = Join (configTables s) '',''" by simp
qed

lemma queries_delete_nothing: "x \<in> set (table_queries P s tr) \<Longrightarrow> \<not> deletes_sync n x"
  by (auto simp add: table_queries_def deletes_sync_def)

text \<open>
  C2, amended. For a declared sync with an explicit table list that the engine holds, and
  whose table list the engine delivers: the sync is deleted for re-creation exactly when
  the comma-joined list from the engine differs from the comma-joined desired list
  (entries trimmed of the white space around them, then sorted); the lists are compared
  as sequences, so a table that is named twice counts twice. When the joined lists are equal the only calls are the
  three queries and one \<open>update sync\<close> command; when they differ and the deletion
  succeeds, the group is deleted and added and the sync is added again. If the engine's
  list is not empty and its names hold no comma, the joined lists differ exactly when the
  lists do.
\<close>

theorem recreation_iff_joined_lists_differ:
  assumes "\<not> fails P tr (CallSyncExists (Name s))" and "fst (SyncExists_ret P tr (Name s))"
    and "Tables s \<noteq> []" and "tables_fetched P s tr"
  shows "((\<exists>x \<in> set (drop (length tr) (snd (reconcile_sync P c s tr))). deletes_sync (Name s) x)
          \<longleftrightarrow> Join (engine_tables P s tr) '','' \<noteq> Join (sort (map TrimSpace (Split_comma (Tables s)))) '','')
       \<and> (Join (engine_tables P s tr) '','' = Join (sort (map TrimSpace (Split_comma (Tables s)))) '','' \<longrightarrow>
            drop (length tr) (snd (reconcile_sync P c s tr))
              = table_queries P s tr @ [CallExecuteBucardoCommand (update_args s)])
       \<and> (Join (engine_tables P s tr) '','' \<noteq> Join (sort (map TrimSpace (Split_comma (Tables s)))) '',''
            \<and> \<not> fails P (tr @ table_queries P s tr)
                   (RemoveSyncAndRelgroup c (Name s) (engine_relgroup P s tr))
            \<and> Herd s = [] \<longrightarrow>
            drop (length tr) (snd (reconcile_sync P c s tr))
              = table_queries P s tr
                @ [RemoveSyncAndRelgroup c (Name s) (engine_relgroup P s tr),
                   CallExecuteBucardoCommand [''del'', ''dbgroup'', dbgroupName s],
                   CallExecuteBucardoCommand ([''add'', ''dbgroup'', dbgroupName s] @ dbgroupMembers s),
                   CallExecuteBucardoCommand (add_args s [''tables='' @ Tables s])])
       \<and> (engine_tables P s tr \<noteq> [] \<and> (\<forall>t \<in> set (engine_tables P s tr). CHR '','' \<notin> set t) \<longrightarrow>
            (Join (engine_tables P s tr) '','' \<noteq> Join (sort (map TrimSpace (Split_comma (Tables s)))) '',''
             \<longleftrightarrow> engine_tables P s tr \<noteq> sort (map TrimSpace (Split_comma (Tables s)))))"
proof -
  let ?new = "drop (length tr) (snd (reconcile_sync P c s tr))"
  let ?del = "RemoveSyncAndRelgroup c (Name s) (engine_relgroup P s tr)"
  have ch: "tables_changed (engine_tables P s tr) s
            = (Join (engine_tables P s tr) '','' \<noteq> Join (sort (map TrimSpace (Split_comma (Tables s)))) '','')"
    by (simp add: tables_changed_def configTables_def)
  note R = reconcile_existing[OF assms, of c]
  have unchanged: "\<not> tables_changed (engine_tables P s tr) s \<Longrightarrow>
      ?new = table_queries P s tr @ [CallExecuteBucardoCommand (update_args s)]"
    using R by simp
  have changed: "tables_changed (engine_tables P s tr) s \<Longrightarrow>
      \<exists>ext. ?new = table_queries P s tr @ [?del] @ ext"
  proof -
    assume c: "tables_changed (engine_tables P s tr) s"
    show ?thesis
    proof (cases "fails P (tr @ table_queries P s tr) ?del")
      case True
      with R c show ?thesis by simp
    next
      case False
      obtain ext where "snd (create_sync P s (tr @ table_queries P s tr @ [?del]))
                         = (tr @ table_queries P s tr @ [?del]) @ ext"
        using create_sync_calls[of P s "tr @ table_queries P s tr @ [?del]"] by blast
      with R c False show ?thesis by simp
    qed
  qed
  have d: "deletes_sync (Name s) ?del"
    by (simp add: deletes_sync_def RemoveSyncAndRelgroup_def)
  have one: "(\<exists>x \<in> set ?new. deletes_sync (Name s) x) \<longleftrightarrow> tables_changed (engine_tables P s tr) s"
  proof (cases "tables_changed (engine_tables P s tr) s")
    case True
    from changed[OF True] d show ?thesis using True by auto
  next
    case False
    from unchanged[OF False] queries_delete_nothing[of _ P s tr "Name s"] show ?thesis
      using False by (auto simp add: deletes_sync_def)
  qed
  have three: "tables_changed (engine_tables P s tr) s \<and> \<not> fails P (tr @ table_queries P s tr) ?del
               \<and> Herd s = [] \<Longrightarrow>
            ?new = table_queries P s tr
                @ [?del,
                   CallExecuteBucardoCommand [''del'', ''dbgroup'', dbgroupName s],
                   CallExecuteBucardoCommand ([''add'', ''dbgroup'', dbgroupName s] @ dbgroupMembers s),
                   CallExecuteBucardoCommand (add_args s [''tables='' @ Tables s])]"
    using R assms(3) by (simp add: create_sync_plain)
  have four: "engine_tables P s tr \<noteq> [] \<and> (\<forall>t \<in> set (engine_tables P s tr). CHR '','' \<notin> set t) \<Longrightarrow>
            (Join (engine_tables P s tr) '','' \<noteq> Join (sort (map TrimSpace (Split_comma (Tables s)))) '',''
             \<longleftrightarrow> engine_tables P s tr \<noteq> sort (map TrimSpace (Split_comma (Tables s))))"
    using Join_eq_configTables[of "engine_tables P s tr" s] by (simp add: configTables_def)
  show ?thesis using one unchanged three four unfolding ch by blast
qed


lemmas dup_eval = dup_sync_def same_sync_def nbsp_sync_def once_a_def dup_engine_def
  same_engine_def empty_engine_def local_conn_def

lemma dup_premises:
  "\<not> fails dup_engine [] (CallSyncExists (Name dup_sync))
   \<and> fst (SyncExists_ret dup_engine [] (Name dup_sync))
   \<and> Tables dup_sync \<noteq> [] \<and> tables_fetched dup_engine dup_sync []"
  by (simp add: dup_eval tables_fetched_def)

lemma same_premises:
  "\<not> fails same_engine [] (CallSyncExists (Name same_sync))
   \<and> fst (SyncExists_ret same_engine [] (Name same_sync))
   \<and> Tables same_sync \<noteq> [] \<and> tables_fetched same_engine same_sync []"
  by (simp add: dup_eval tables_fetched_def)

lemma nbsp_premises:
  "\<not> fails same_engine [] (CallSyncExists (Name nbsp_sync))
   \<and> fst (SyncExists_ret same_engine [] (Name nbsp_sync))
   \<and> Tables nbsp_sync \<noteq> [] \<and> tables_fetched same_engine nbsp_sync []"
  by (simp add: dup_eval tables_fetched_def)

lemma nbsp_tables: "engine_tables same_engine nbsp_sync [] = [''public.t1'', ''public.t2'']"
  by (simp add: dup_eval engine_tables_def)

lemma nbsp_desired:
  "sort (map TrimSpace (Split_comma (Tables nbsp_sync))) = [''public.t1'', ''public.t2'']"
  by (simp add: dup_eval trim_eval)

lemma dup_tables: "engine_tables dup_engine dup_sync [] = [''public.t1'']"
  by (simp add: dup_eval engine_tables_def)

lemma same_tables: "engine_tables same_engine same_sync [] = [''public.t1'', ''public.t2'']"
  by (simp add: dup_eval engine_tables_def)

lemma dup_desired: "sort (map TrimSpace (Split_comma (Tables dup_sync))) = [''public.t1'', ''public.t1'']"
  by (simp add: dup_eval trim_eval)

lemma same_desired: "sort (map TrimSpace (Split_comma (Tables same_sync))) = [''public.t1'', ''public.t2'']"
  by (simp add: dup_eval trim_eval)

lemma dup_same_set: "\<not> spec_tables_differ (Tables dup_sync) (engine_tables dup_engine dup_sync [])"
  using dup_desired by (simp add: spec_tables_differ_def normalized_def dup_tables trim_eval)

lemma dup_trace:
  "snd (reconcile_sync dup_engine local_conn dup_sync []) =
     [CallSyncExists ''dup'', CallGetSyncRelgroup ''Relgroup: dup '', CallGetSyncTables ''dup'',
      CallRemoveSyncAndRelgroup ''dup'' ''dup'' ''postgres'' ''postgres'' ''changeme'' 5432,
      CallExecuteBucardoCommand [''del'', ''dbgroup'', ''bg_dup''],
      CallExecuteBucardoCommand [''add'', ''dbgroup'', ''bg_dup'', ''db1:source'', ''db2:source''],
      CallExecuteBucardoCommand
        [''add'', ''sync'', ''dup'', ''onetimecopy=1'', ''dbs=bg_dup'',
         ''tables=public.t1,public.t1'', ''conflict_strategy=bucardo_latest'']]"
  by (simp add: reload_eval tables_changed_def configTables_def dup_eval trim_eval
      Let_def show_eval)

text \<open>
  The claim as it stands fails for a desired list that names a table twice: the engine
  holds \<open>public.t1\<close>, the desired list is \<open>public.t1,public.t1\<close>; as sets the
  normalized lists are equal, and the sync is deleted and created again.
\<close>

theorem recreation_iff_joined_lists_differ_counterexample:
  "\<not> (\<forall>P c s tr.
         \<not> fails P tr (CallSyncExists (Name s)) \<and> fst (SyncExists_ret P tr (Name s))
         \<and> Tables s \<noteq> [] \<and> tables_fetched P s tr \<longrightarrow>
         ((\<exists>x \<in> set (drop (length tr) (snd (reconcile_sync P c s tr))). deletes_sync (Name s) x)
          \<longleftrightarrow> spec_tables_differ (Tables s) (engine_tables P s tr)))"
proof
  assume H: "\<forall>P c s tr.
         \<not> fails P tr (CallSyncExists (Name s)) \<and> fst (SyncExists_ret P tr (Name s))
         \<and> Tables s \<noteq> [] \<and> tables_fetched P s tr \<longrightarrow>
         ((\<exists>x \<in> set (drop (length tr) (snd (reconcile_sync P c s tr))). deletes_sync (Name s) x)
          \<longleftrightarrow> spec_tables_differ (Tables s) (engine_tables P s tr))"
  have
    "(\<exists>x \<in> set (drop (length ([] :: call list)) (snd (reconcile_sync dup_engine local_conn dup_sync []))).
        deletes_sync (Name dup_sync) x)
     \<longleftrightarrow> spec_tables_differ (Tables dup_sync) (engine_tables dup_engine dup_sync [])"
    using H[rule_format, where P = dup_engine and s = dup_sync and tr = "[]"
          and c = local_conn, OF dup_premises] .
  with dup_same_set have
    "\<not> (\<exists>x \<in> set (snd (reconcile_sync dup_engine local_conn dup_sync [])).
        deletes_sync (Name dup_sync) x)" by simp
  moreover have "deletes_sync (Name dup_sync)
     (CallRemoveSyncAndRelgroup ''dup'' ''dup'' ''postgres'' ''postgres'' ''changeme'' 5432)"
    by (simp add: deletes_sync_def dup_eval)
  ultimately show False by (simp add: dup_trace)
qed

theorem recreation_iff_joined_lists_differ_witness:
  "\<not> fails same_engine [] (CallSyncExists (Name same_sync))
   \<and> fst (SyncExists_ret same_engine [] (Name same_sync))
   \<and> Tables same_sync \<noteq> [] \<and> tables_fetched same_engine same_sync []
   \<and> Join (engine_tables same_engine same_sync []) '',''
       = Join (sort (map TrimSpace (Split_comma (Tables same_sync)))) '',''
   \<and> snd (reconcile_sync same_engine local_conn same_sync []) =
       [CallSyncExists ''dup'', CallGetSyncRelgroup ''Relgroup: dup '', CallGetSyncTables ''dup'',
        CallExecuteBucardoCommand [''update'', ''sync'', ''dup'', ''conflict_strategy=bucardo_latest'']]
   \<and> Join (engine_tables dup_engine dup_sync []) '',''
       \<noteq> Join (sort (map TrimSpace (Split_comma (Tables dup_sync)))) '',''
   \<and> (\<exists>x \<in> set (snd (reconcile_sync dup_engine local_conn dup_sync [])).
         deletes_sync (Name dup_sync) x)
   \<and> tables_fetched same_engine nbsp_sync []
   \<and> \<not> (\<exists>x \<in> set (snd (reconcile_sync same_engine local_conn nbsp_sync [])).
           deletes_sync (Name nbsp_sync) x)"
proof -
  have np: "\<not> fails same_engine [] (CallSyncExists (Name nbsp_sync))"
    "fst (SyncExists_ret same_engine [] (Name nbsp_sync))"
    "Tables nbsp_sync \<noteq> []" "tables_fetched same_engine nbsp_sync []"
    using nbsp_premises by simp_all
  have jn: "Join (engine_tables same_engine nbsp_sync []) '',''
       = Join (sort (map TrimSpace (Split_comma (Tables nbsp_sync)))) '',''"
    by (simp add: nbsp_tables nbsp_desired)
  note N = recreation_iff_joined_lists_differ[OF np, of local_conn]
  from N[THEN conjunct1] jn
  have "\<not> (\<exists>x \<in> set (drop (length ([] :: call list))
                   (snd (reconcile_sync same_engine local_conn nbsp_sync []))).
           deletes_sync (Name nbsp_sync) x)" by simp
  then have w: "\<not> (\<exists>x \<in> set (snd (reconcile_sync same_engine local_conn nbsp_sync [])).
           deletes_sync (Name nbsp_sync) x)" by simp
  have j: "Join (engine_tables same_engine same_sync []) '',''
       = Join (sort (map TrimSpace (Split_comma (Tables same_sync)))) '',''"
    by (simp add: same_tables same_desired)
  have k: "Join (engine_tables dup_engine dup_sync []) '',''
       \<noteq> Join (sort (map TrimSpace (Split_comma (Tables dup_sync)))) '',''"
    by (simp add: dup_tables dup_desired)
  have sp: "\<not> fails same_engine [] (CallSyncExists (Name same_sync))"
    "fst (SyncExists_ret same_engine [] (Name same_sync))"
    "Tables same_sync \<noteq> []" "tables_fetched same_engine same_sync []"
    using same_premises by simp_all
  have dp: "\<not> fails dup_engine [] (CallSyncExists (Name dup_sync))"
    "fst (SyncExists_ret dup_engine [] (Name dup_sync))"
    "Tables dup_sync \<noteq> []" "tables_fetched dup_engine dup_sync []"
    using dup_premises by simp_all
  note S = recreation_iff_joined_lists_differ[OF sp, of local_conn]
  note D = recreation_iff_joined_lists_differ[OF dp, of local_conn]
  from S[THEN conjunct2, THEN conjunct1] j
  have "drop (length ([] :: call list)) (snd (reconcile_sync same_engine local_conn same_sync []))
     = table_queries same_engine same_sync [] @ [CallExecuteBucardoCommand (update_args same_sync)]"
    by (rule mp)
  then have u: "snd (reconcile_sync same_engine local_conn same_sync []) =
       [CallSyncExists ''dup'', CallGetSyncRelgroup ''Relgroup: dup '', CallGetSyncTables ''dup'',
        CallExecuteBucardoCommand [''update'', ''sync'', ''dup'', ''conflict_strategy=bucardo_latest'']]"
    by (simp add: table_queries_def engine_details_def engine_relgroup_def update_args_def
        strict_arg_def conflict_arg_def dup_eval)
  from D[THEN conjunct1] k
  have "\<exists>x \<in> set (drop (length ([] :: call list)) (snd (reconcile_sync dup_engine local_conn dup_sync []))).
         deletes_sync (Name dup_sync) x" by (rule iffD2)
  then have v: "\<exists>x \<in> set (snd (reconcile_sync dup_engine local_conn dup_sync [])).
         deletes_sync (Name dup_sync) x" by simp
  from sp j u k v np(4) w show ?thesis by (intro conjI)
qed

subsection \<open>Evaluating SHA-1\<close>

lemma sha1_schedule_numeral:
  "sha1_schedule (numeral k) acc win =
     sha1_schedule (pred_numeral k) (acc @ [sha1_next win]) (tl win @ [sha1_next win])"
  by (simp add: numeral_eq_Suc)

lemma sha1_blocks_numeral:
  "sha1_blocks (numeral k) h ws =
     sha1_blocks (pred_numeral k) (sha1_block h (take 16 ws)) (drop 16 ws)"
  by (simp add: numeral_eq_Suc)

lemma replicate_numeral: "replicate (numeral k) x = x # replicate (pred_numeral k) x"
  by (simp add: numeral_eq_Suc)

lemmas sha1_eval = sha1_Sum_def sha1_digest_def sha1_pad_def be64_def replicate_numeral
  sha1_schedule_numeral sha1_blocks_numeral sha1_block_def sha1_compress_def sha1_next_def
  rotl_def sha1_ch_def sha1_maj_def sha1_parity_def word_bytes_def

lemmas hex_eval = show_hex_def hex_digit_def digit_char_def

text \<open>The test vector of FIPS 180 for the message \<open>abc\<close>.\<close>

lemma sha1_abc: "show_hex (sha1_Sum ''abc'') = ''a9993e364706816aba3e25717850c26c9cd0d89d''"
  by (simp add: sha1_eval hex_eval)

lemma content_169_167: "group_content [169] [167] = ''db167:target,db169:source''"
  by (simp add: group_content_def memberNames_def source_members_def target_members_def
      show_int_def digits.simps digit_char_def)

lemma content_253_374: "group_content [253] [374] = ''db253:source,db374:target''"
  by (simp add: group_content_def memberNames_def source_members_def target_members_def
      show_int_def digits.simps digit_char_def)

lemma hash_169_167: "show_hex (take 4 (sha1_Sum ''db167:target,db169:source'')) = ''1302fdf3''"
  by (simp add: sha1_eval hex_eval)

lemma hash_253_374: "show_hex (take 4 (sha1_Sum ''db253:source,db374:target'')) = ''1302fdf3''"
  by (simp add: sha1_eval hex_eval)

text \<open>
  The claim as it stands fails where two digests agree in their first four bytes: the
  memberships (source 169, target 167) and (source 253, target 374) differ, and the group
  of a sync has the same name, ending in \<open>1302fdf3\<close>, for both.
\<close>

theorem group_identity_by_membership_counterexample:
  "\<not> (\<forall>n s1 t1 s2 t2. set s1 \<noteq> set s2 \<or> set t1 \<noteq> set t2 \<longrightarrow>
          sg_name n s1 t1 \<noteq> sg_name n s2 t2)"
proof
  assume "\<forall>n s1 t1 s2 t2. set s1 \<noteq> set s2 \<or> set t1 \<noteq> set t2 \<longrightarrow>
          sg_name n s1 t1 \<noteq> sg_name n s2 t2"
  then have "set [169::int] \<noteq> set [253] \<or> set [167::int] \<noteq> set [374] \<longrightarrow>
          sg_name ''A'' [169] [167] \<noteq> sg_name ''A'' [253] [374]" by blast
  then have "sg_name ''A'' [169] [167] \<noteq> sg_name ''A'' [253] [374]" by simp
  moreover have "sg_name ''A'' [169] [167] = sg_name ''A'' [253] [374]"
    by (simp add: sg_name_def content_169_167 content_253_374 hash_169_167 hash_253_374)
  ultimately show False by simp
qed

section \<open>The order of pruning and reconciliation\<close>

lemma grows_refl: "grows Q tr tr"
  by (simp add: grows_def)

lemma grows_trans: "grows Q a b \<Longrightarrow> grows Q b c \<Longrightarrow> grows Q a c"
  by (auto simp add: grows_def)

lemma grows_invoke: "Q c \<Longrightarrow> grows Q tr (snd (invoke P c tr))"
  by (simp add: grows_def invoke_def)

lemma grows_step: "Q c \<Longrightarrow> grows Q tr (tr @ [c])"
  by (simp add: grows_def)

lemma no_command_simps:
  "\<not> reconciles_declared CallStopBucardo" "\<not> reconciles_declared CallStartBucardo"
  "\<not> reconciles_declared (CallSetLogLevel l)" "\<not> reconciles_declared (CallSetupPgpass dbs)"
  "\<not> reconciles_declared CallCleanupPgpass"
  "\<not> reconciles_declared (CallEnsureBucardoUserPassword a b c d e f)"
  "\<not> reconciles_declared (CallInstallBucardo a b c d)"
  "\<not> reconciles_declared CallListDatabases" "\<not> reconciles_declared (CallDatabaseExists n)"
  "\<not> reconciles_declared (CallRemoveDatabase n)" "\<not> reconciles_declared CallListSyncs"
  "\<not> reconciles_declared (CallSyncExists n)" "\<not> reconciles_declared (CallGetSyncRelgroup n)"
  "\<not> reconciles_declared (CallGetSyncTables n)"
  "\<not> reconciles_declared (RemoveSyncAndRelgroup cn a b)"
  by (simp_all add: reconciles_declared_def RemoveSyncAndRelgroup_def)

lemma no_prune_simps:
  "\<not> prunes cfg CallStopBucardo" "\<not> prunes cfg CallStartBucardo"
  "\<not> prunes cfg (CallSetLogLevel l)" "\<not> prunes cfg (CallSetupPgpass dbs)"
  "\<not> prunes cfg CallCleanupPgpass"
  "\<not> prunes cfg (CallEnsureBucardoUserPassword a b c d e f)"
  "\<not> prunes cfg (CallInstallBucardo a b c d)"
  "\<not> prunes cfg CallListDatabases" "\<not> prunes cfg (CallDatabaseExists n)"
  "\<not> prunes cfg CallListSyncs"
  "\<not> prunes cfg (CallSyncExists n)" "\<not> prunes cfg (CallGetSyncRelgroup n)"
  "\<not> prunes cfg (CallGetSyncTables n)"
  "\<not> prunes cfg (CallExecuteBucardoCommand args)"
  by (simp_all add: prunes_def)

subsection \<open>The pruning steps issue no engine command\<close>

lemma remove_dbs_loop_grows:
  "grows (\<lambda>x. \<not> reconciles_declared x) tr (remove_dbs_loop P m ns tr)"
proof (induction ns arbitrary: tr)
  case Nil
  then show ?case by (simp add: grows_refl)
next
  case (Cons n ns)
  have "grows (\<lambda>x. \<not> reconciles_declared x) tr
          (if \<not> m n then snd (invoke P (CallRemoveDatabase n) tr) else tr)"
    by (simp add: grows_refl grows_invoke no_command_simps)
  from grows_trans[OF this Cons.IH] show ?case by simp
qed

lemma removeOrphanedDbs_grows:
  "grows (\<lambda>x. \<not> reconciles_declared x) tr (snd (removeOrphanedDbs P cfg tr))"
proof -
  have a: "grows (\<lambda>x. \<not> reconciles_declared x) tr (tr @ [CallListDatabases])"
    by (simp add: grows_step no_command_simps)
  show ?thesis
    using a grows_trans[OF a remove_dbs_loop_grows]
    by (simp add: removeOrphanedDbs_def invoke_def split: bool.splits)
qed

lemma remove_orphan_sync_grows:
  "grows (\<lambda>x. \<not> reconciles_declared x) tr (remove_orphan_sync P c n tr)"
  by (simp add: remove_orphan_sync_def invoke_def grows_def no_command_simps)

lemma remove_syncs_loop_grows:
  "grows (\<lambda>x. \<not> reconciles_declared x) tr (remove_syncs_loop P c m ns tr)"
proof (induction ns arbitrary: tr)
  case Nil
  then show ?case by (simp add: grows_refl)
next
  case (Cons n ns)
  have "grows (\<lambda>x. \<not> reconciles_declared x) tr
          (if \<not> m n then remove_orphan_sync P c n tr else tr)"
    by (simp add: grows_refl remove_orphan_sync_grows)
  from grows_trans[OF this Cons.IH] show ?case by simp
qed

lemma removeOrphanedSyncs_grows:
  "grows (\<lambda>x. \<not> reconciles_declared x) tr (snd (removeOrphanedSyncs P cfg c tr))"
proof -
  have a: "grows (\<lambda>x. \<not> reconciles_declared x) tr (tr @ [CallListSyncs])"
    by (simp add: grows_step no_command_simps)
  show ?thesis
    using a grows_trans[OF a remove_syncs_loop_grows]
    by (simp add: removeOrphanedSyncs_def invoke_def split: bool.splits)
qed

subsection \<open>The reconciliation of declared entities prunes nothing\<close>

lemma add_dbs_loop_grows:
  "grows (\<lambda>x. \<not> prunes cfg x) tr (snd (add_dbs_loop P env dbs tr))"
proof (induction dbs arbitrary: tr)
  case Nil
  then show ?case by (simp add: grows_refl)
next
  case (Cons db dbs)
  let ?t1 = "tr @ [CallDatabaseExists (dbName_of db)]"
  have a: "grows (\<lambda>x. \<not> prunes cfg x) tr ?t1" by (simp add: grows_step no_prune_simps)
  show ?case
  proof (cases "fails P tr (CallDatabaseExists (dbName_of db))")
    case True
    with a show ?thesis by (simp add: invoke_def)
  next
    case False
    show ?thesis
    proof (cases "getDbPassword env db")
      case (Inl e)
      with False a show ?thesis by (simp add: invoke_def)
    next
      case (Inr password)
      let ?c = "CallExecuteBucardoCommand
                  (db_args (DatabaseExists_ret P tr (dbName_of db)) db password)"
      have b: "grows (\<lambda>x. \<not> prunes cfg x) tr (?t1 @ [?c])"
        using grows_trans[OF a grows_step[of "\<lambda>x. \<not> prunes cfg x" ?c ?t1]]
        by (simp add: no_prune_simps)
      show ?thesis
      proof (cases "fails P ?t1 ?c")
        case True
        with False Inr b show ?thesis by (simp add: invoke_def)
      next
        case f: False
        from grows_trans[OF b Cons.IH[of "?t1 @ [?c]"]] False Inr f show ?thesis
          by (simp add: invoke_def)
      qed
    qed
  qed
qed

lemma configSyncs_fold:
  "foldl (\<lambda>m s. m(Name s := True)) m0 ss n = (m0 n \<or> n \<in> Name ` set ss)"
  by (induction ss arbitrary: m0) auto

lemma configSyncs_iff: "configSyncs cfg n = (n \<in> Name ` set (Syncs cfg))"
  by (simp add: configSyncs_def configSyncs_fold)

lemma create_sync_grows: "grows (\<lambda>x. \<not> prunes cfg x) tr (snd (create_sync P s tr))"
proof -
  obtain ext where e: "snd (create_sync P s tr) = tr @ ext"
    and c: "\<forall>x \<in> set ext. \<exists>args. x = CallExecuteBucardoCommand args"
    using create_sync_calls[of P s tr] by blast
  from c have "\<forall>x \<in> set ext. \<not> prunes cfg x" using no_prune_simps(14) by metis
  with e show ?thesis unfolding grows_def by blast
qed

lemma update_sync_grows: "grows (\<lambda>x. \<not> prunes cfg x) tr (snd (update_sync P s tr))"
  by (simp add: grows_step no_prune_simps)

lemma declared_removal_no_prune:
  "configSyncs cfg (Name s) \<Longrightarrow> \<not> prunes cfg (RemoveSyncAndRelgroup c (Name s) rg)"
  by (simp add: prunes_def RemoveSyncAndRelgroup_def)

lemma reconcile_tables_grows:
  assumes "configSyncs cfg (Name s)"
  shows "grows (\<lambda>x. \<not> prunes cfg x) tr (snd (reconcile_tables P c s details tr))"
proof -
  let ?Q = "\<lambda>x. \<not> prunes cfg x"
  let ?rg = "if fails P tr (CallGetSyncRelgroup details) then Name s
             else GetSyncRelgroup_ret P tr details"
  let ?t3 = "tr @ [CallGetSyncRelgroup details, CallGetSyncTables ?rg]"
  let ?cur = "if fails P (tr @ [CallGetSyncRelgroup details]) (CallGetSyncTables ?rg) then []
              else GetSyncTables_ret P (tr @ [CallGetSyncRelgroup details]) ?rg"
  let ?del = "RemoveSyncAndRelgroup c (Name s) ?rg"
  have a: "grows ?Q tr ?t3" by (simp add: grows_def no_prune_simps)
  have d: "grows ?Q ?t3 (?t3 @ [?del])"
    by (rule grows_step) (rule declared_removal_no_prune[OF assms])
  have e: "reconcile_tables P c s details tr =
             (if tables_changed ?cur s then
                (if fails P ?t3 ?del then (Some (DeleteForRecreationFailed (Name s)), ?t3 @ [?del])
                 else create_sync P s (?t3 @ [?del]))
              else update_sync P s ?t3)"
    by (simp add: reconcile_tables_def invoke_def Let_def split: bool.splits)
  show ?thesis
  proof (cases "tables_changed ?cur s")
    case True
    show ?thesis
    proof (cases "fails P ?t3 ?del")
      case t: True
      from grows_trans[OF a d] e True t show ?thesis by simp
    next
      case f: False
      from grows_trans[OF grows_trans[OF a d] create_sync_grows[of cfg "?t3 @ [?del]" P s]]
        e True f show ?thesis by simp
    qed
  next
    case False
    from grows_trans[OF a update_sync_grows[of cfg ?t3 P s]] e False show ?thesis by simp
  qed
qed

lemma reconcile_sync_grows:
  assumes "configSyncs cfg (Name s)"
  shows "grows (\<lambda>x. \<not> prunes cfg x) tr (snd (reconcile_sync P c s tr))"
proof -
  let ?Q = "\<lambda>x. \<not> prunes cfg x"
  let ?t1 = "tr @ [CallSyncExists (Name s)]"
  have a: "grows ?Q tr ?t1" by (simp add: grows_step no_prune_simps)
  show ?thesis
  proof (cases "fails P tr (CallSyncExists (Name s))")
    case True
    with a show ?thesis by (simp add: reconcile_sync_def invoke_def)
  next
    case False
    show ?thesis
    proof (cases "fst (SyncExists_ret P tr (Name s))")
      case ex: True
      show ?thesis
      proof (cases "Tables s = []")
        case True
        from grows_trans[OF a update_sync_grows[of cfg ?t1 P s]] False ex True show ?thesis
          by (simp add: reconcile_sync_def invoke_def)
      next
        case nt: False
        from grows_trans[OF a reconcile_tables_grows[OF assms, of ?t1 P c]] False ex nt
        show ?thesis by (simp add: reconcile_sync_def invoke_def)
      qed
    next
      case nex: False
      from grows_trans[OF a create_sync_grows[of cfg ?t1 P s]] False nex show ?thesis
        by (simp add: reconcile_sync_def invoke_def)
    qed
  qed
qed

lemma add_syncs_loop_grows:
  "\<forall>s \<in> set ss. configSyncs cfg (Name s) \<Longrightarrow>
   grows (\<lambda>x. \<not> prunes cfg x) tr (snd (add_syncs_loop P c ss tr))"
proof (induction ss arbitrary: tr)
  case Nil
  then show ?case by (simp add: grows_refl)
next
  case (Cons s ss)
  from Cons.prems have d: "configSyncs cfg (Name s)" by simp
  note g = reconcile_sync_grows[OF d, of tr P c]
  obtain r t1 where rs: "reconcile_sync P c s tr = (r, t1)" by (cases "reconcile_sync P c s tr")
  with g have g1: "grows (\<lambda>x. \<not> prunes cfg x) tr t1" by simp
  show ?case
  proof (cases r)
    case None
    from Cons.prems have "\<forall>s \<in> set ss. configSyncs cfg (Name s)" by simp
    from grows_trans[OF g1 Cons.IH[OF this, of t1]] rs None show ?thesis by simp
  next
    case (Some e)
    with rs g1 show ?thesis by simp
  qed
qed

lemma addSyncsToBucardo_grows:
  "grows (\<lambda>x. \<not> prunes cfg x) tr (snd (addSyncsToBucardo P cfg c tr))"
  using add_syncs_loop_grows[of "Syncs cfg" cfg tr P c]
  by (simp add: addSyncsToBucardo_def configSyncs_iff)


subsection \<open>The whole cycle\<close>

lemma two_phase_pre_only: "grows (\<lambda>x. \<not> reconciles_declared x) tr tr' \<Longrightarrow> two_phase cfg tr tr'"
  unfolding two_phase_def using grows_refl by blast

lemma two_phase_pre:
  "grows (\<lambda>x. \<not> reconciles_declared x) tr tr1 \<Longrightarrow> two_phase cfg tr1 tr' \<Longrightarrow> two_phase cfg tr tr'"
  unfolding two_phase_def using grows_trans by blast

lemma two_phase_post:
  "two_phase cfg tr tr1 \<Longrightarrow> grows (\<lambda>x. \<not> prunes cfg x) tr1 tr' \<Longrightarrow> two_phase cfg tr tr'"
  unfolding two_phase_def using grows_trans by blast

lemma reconcile_two_phase: "two_phase cfg tr (snd (reconcile P H cfg tr))"
proof -
  let ?t1 = "snd (removeOrphanedDbs P cfg tr)"
  let ?t2 = "snd (removeOrphanedSyncs P cfg (connection H) ?t1)"
  have a: "grows (\<lambda>x. \<not> reconciles_declared x) tr ?t2"
    using grows_trans[OF removeOrphanedDbs_grows removeOrphanedSyncs_grows] .
  obtain r t3 where d: "addDatabasesToBucardo P (environment H) cfg ?t2 = (r, t3)"
    by (cases "addDatabasesToBucardo P (environment H) cfg ?t2")
  have b: "grows (\<lambda>x. \<not> prunes cfg x) ?t2 t3"
    using add_dbs_loop_grows[of cfg ?t2 P "environment H" "Databases cfg"] d
    by (simp add: addDatabasesToBucardo_def)
  have ab: "two_phase cfg tr t3" unfolding two_phase_def using a b by blast
  show ?thesis
  proof (cases r)
    case (Some e)
    with d ab show ?thesis by (simp add: reconcile_def Let_def)
  next
    case None
    from two_phase_post[OF ab addSyncsToBucardo_grows[of cfg t3 P "connection H"]] d None
    show ?thesis by (simp add: reconcile_def Let_def)
  qed
qed

lemma setLogLevel_grows: "grows (\<lambda>x. \<not> reconciles_declared x) tr (setLogLevel P cfg tr)"
  by (simp add: setLogLevel_def grows_refl grows_invoke no_command_simps)

lemma reload_body_two_phase: "two_phase cfg tr (snd (reload_body P H cfg tr))"
proof -
  let ?Q = "\<lambda>x. \<not> reconciles_declared x"
  let ?dbName = "getEnv (environment H) ''BUCARDO_DB_NAME'' ''bucardo''"
  let ?c = "connection H"
  let ?e = "CallEnsureBucardoUserPassword (dbHost ?c) (dbUser ?c) (dbPass ?c) ?dbName
              (dbPass ?c) (dbPort ?c)"
  let ?i = "CallInstallBucardo ?dbName (dbHost ?c) (dbUser ?c) (dbPass ?c)"
  let ?t2 = "tr @ [?e, ?i]"
  have a: "grows ?Q tr ?t2" by (simp add: grows_def no_command_simps)
  show ?thesis
  proof (cases "fails P (tr @ [?e]) ?i")
    case True
    with two_phase_pre_only[OF a, of cfg] show ?thesis
      by (simp add: reload_body_def Let_def invoke_def)
  next
    case False
    let ?t3 = "setLogLevel P cfg ?t2"
    have b: "grows ?Q tr ?t3" using grows_trans[OF a setLogLevel_grows] .
    obtain r t4 where rc: "reconcile P H cfg ?t3 = (r, t4)" by (cases "reconcile P H cfg ?t3")
    with reconcile_two_phase[of cfg ?t3 P H] have "two_phase cfg ?t3 t4" by simp
    from two_phase_pre[OF b this] have c: "two_phase cfg tr t4" .
    show ?thesis
    proof (cases r)
      case (Some e)
      with False rc c show ?thesis by (simp add: reload_body_def Let_def invoke_def)
    next
      case None
      have "grows (\<lambda>x. \<not> prunes cfg x) t4 (t4 @ [CallStartBucardo])"
        by (simp add: grows_step no_prune_simps)
      from two_phase_post[OF c this] False rc None show ?thesis
        by (simp add: reload_body_def Let_def invoke_def split: bool.splits)
    qed
  qed
qed

lemma ReloadAndRestart_two_phase:
  assumes "stored H = Some cfg"
  shows "two_phase cfg tr (snd (ReloadAndRestart P H tr))"
proof -
  let ?Q = "\<lambda>x. \<not> reconciles_declared x"
  have refl: "two_phase cfg tr tr" using two_phase_pre_only[OF grows_refl] .
  show ?thesis
  proof (cases "configFileExists H \<and> validateConfig cfg = []")
    case False
    with assms refl show ?thesis by (auto simp add: ReloadAndRestart_def)
  next
    case True
    let ?t2 = "tr @ [CallStopBucardo, CallSetupPgpass (allDBsForPass H cfg)]"
    have a: "grows ?Q tr ?t2" by (simp add: grows_def no_command_simps)
    show ?thesis
    proof (cases "fails P (tr @ [CallStopBucardo]) (CallSetupPgpass (allDBsForPass H cfg))")
      case t: True
      with True assms two_phase_pre_only[OF a, of cfg] show ?thesis
        by (simp add: ReloadAndRestart_def invoke_def Let_def)
    next
      case f: False
      obtain r t3 where rb: "reload_body P H cfg ?t2 = (r, t3)" by (cases "reload_body P H cfg ?t2")
      with reload_body_two_phase[of cfg ?t2 P H] have "two_phase cfg ?t2 t3" by simp
      from two_phase_pre[OF a this] have b: "two_phase cfg tr t3" .
      have "grows (\<lambda>x. \<not> prunes cfg x) t3 (t3 @ [CallCleanupPgpass])"
        by (simp add: grows_step no_prune_simps)
      from two_phase_post[OF b this] True assms f rb show ?thesis
        by (simp add: ReloadAndRestart_def invoke_def Let_def)
    qed
  qed
qed

lemma two_phase_pruning_first:
  assumes "two_phase cfg [] tr"
  shows "pruning_first cfg tr"
proof -
  from assms obtain A B where tr: "tr = A @ B"
    and A: "\<forall>x \<in> set A. \<not> reconciles_declared x" and B: "\<forall>x \<in> set B. \<not> prunes cfg x"
    unfolding two_phase_def grows_def by auto
  show ?thesis
    unfolding pruning_first_def
  proof (intro allI impI)
    fix i j
    assume h: "i < length tr \<and> j < length tr \<and> reconciles_declared (tr ! i) \<and> prunes cfg (tr ! j)"
    have i: "\<not> i < length A"
    proof
      assume "i < length A"
      then have "tr ! i \<in> set A" using tr by (simp add: nth_append)
      with A h show False by blast
    qed
    have j: "j < length A"
    proof (rule ccontr)
      assume n: "\<not> j < length A"
      with h tr have "j - length A < length B" by auto
      then have "B ! (j - length A) \<in> set B" by simp
      moreover from n tr have "tr ! j = B ! (j - length A)" by (simp add: nth_append)
      ultimately show False using B h by auto
    qed
    from i j show "j < i" by simp
  qed
qed

text \<open>
  C1, amended. In every reconciliation cycle the orphan pruning is performed before the
  declared databases and syncs are reconciled: in the trace of \<open>ReloadAndRestart\<close> every
  call that removes a database or a sync which the configuration does not declare comes
  before every engine command that creates or updates a declared entity.
\<close>

theorem pruning_precedes_reconciliation:
  assumes "stored H = Some cfg"
  shows "pruning_first cfg (snd (ReloadAndRestart P H []))"
  using two_phase_pruning_first[OF ReloadAndRestart_two_phase[OF assms]] .

lemma orphan_run:
  "snd (ReloadAndRestart orphan_engine (host_of once_config) []) = orphan_trace"
  by (simp add: reload_eval Let_def show_eval once_eval once_trace_def orphan_trace_def
      orphan_engine_def validateConfig_def validate_shape_def validate_strategy_def
      validStrategies_def)

lemma orphan_trace_6: "orphan_trace ! 6 = CallRemoveDatabase ''db9''"
  by (simp add: orphan_trace_def once_trace_def)

lemma orphan_trace_12:
  "orphan_trace ! 12 = CallExecuteBucardoCommand
     [''add'', ''db'', ''db1'', ''dbname=app'', ''host=pg1'', ''user=repl'', ''pass=secret'']"
  by (simp add: orphan_trace_def once_trace_def)

lemma orphan_trace_length: "length orphan_trace = 25"
  by (simp add: orphan_trace_def once_trace_def)

lemma db9_pruned: "prunes once_config (CallRemoveDatabase ''db9'')"
  by (simp add: prunes_def configDbs_def once_eval dbName_of_def show_eval)

text \<open>
  The claim as it stands fails on an engine that holds the undeclared database \<open>db9\<close>:
  its removal is the seventh call, the command that adds the declared database \<open>db1\<close>
  the thirteenth.
\<close>

theorem pruning_precedes_reconciliation_counterexample:
  "\<not> pruning_last once_config (snd (ReloadAndRestart orphan_engine (host_of once_config) []))"
proof
  assume "pruning_last once_config (snd (ReloadAndRestart orphan_engine (host_of once_config) []))"
  then have "\<forall>i j. i < length orphan_trace \<and> j < length orphan_trace
       \<and> reconciles_declared (orphan_trace ! i) \<and> prunes once_config (orphan_trace ! j) \<longrightarrow> i < j"
    by (simp add: pruning_last_def orphan_run)
  then have "12 < length orphan_trace \<and> 6 < length orphan_trace
       \<and> reconciles_declared (orphan_trace ! 12) \<and> prunes once_config (orphan_trace ! 6)
       \<longrightarrow> (12::nat) < 6" by blast
  then show False
    by (simp add: orphan_trace_length orphan_trace_6 orphan_trace_12 db9_pruned
        reconciles_declared_def)
qed

theorem pruning_precedes_reconciliation_witness:
  "stored (host_of once_config) = Some once_config
   \<and> snd (ReloadAndRestart orphan_engine (host_of once_config) []) = orphan_trace
   \<and> prunes once_config (orphan_trace ! 6)
   \<and> reconciles_declared (orphan_trace ! 12)
   \<and> pruning_first once_config orphan_trace"
proof -
  have h: "stored (host_of once_config) = Some once_config" by (simp add: host_of_def)
  from pruning_precedes_reconciliation[OF h, of orphan_engine]
  have p: "pruning_first once_config orphan_trace" by (simp add: orphan_run)
  have a: "prunes once_config (orphan_trace ! 6)" by (simp add: orphan_trace_6 db9_pruned)
  have b: "reconciles_declared (orphan_trace ! 12)"
    by (simp add: orphan_trace_12 reconciles_declared_def)
  from h orphan_run a b p show ?thesis by (intro conjI)
qed

end
